theory Spec2Isabelle
  imports Complex_Main "HOL-Library.List_Lexorder"
begin

section \<open>Common Python and numpy conventions\<close>

text \<open>
  Floating-point numbers are modelled by \<^typ>\<open>real\<close>; rounding, NaN and the infinities
  are not represented. Exceptions are values of \<open>error\<close>; a function that may raise
  returns \<open>error + 'a\<close> with \<open>Inl\<close> for the raised exception. A method that assigns to
  attributes of its object before it may raise returns \<open>(error \<times> 's) + 'a\<close>: the exception
  together with the object as the raise leaves it.
\<close>

datatype error =
  TypeError | IndexError | ValueError | AttributeError | UnboundLocalError | RecursionError
| KeyError

definition ebind :: "'e + 'a \<Rightarrow> ('a \<Rightarrow> 'e + 'b) \<Rightarrow> 'e + 'b" where
  "ebind m f = (case m of Inl e \<Rightarrow> Inl e | Inr x \<Rightarrow> f x)"

text \<open>An exception of \<open>m\<close> raised while the object is \<open>s\<close>; and an exception that comes
  with a part \<open>t\<close> of the object, put back into the object by \<open>g\<close>.\<close>

definition raising :: "'s \<Rightarrow> error + 'a \<Rightarrow> (error \<times> 's) + 'a" where
  "raising s m = (case m of Inl e \<Rightarrow> Inl (e, s) | Inr x \<Rightarrow> Inr x)"

definition raising_in :: "('t \<Rightarrow> 's) \<Rightarrow> (error \<times> 't) + 'a \<Rightarrow> (error \<times> 's) + 'a" where
  "raising_in g m = (case m of Inl (e, t) \<Rightarrow> Inl (e, g t) | Inr x \<Rightarrow> Inr x)"

text \<open>Integer indexing of a sequence of length \<open>n\<close>: a negative index counts from the
  end, anything outside \<open>-n .. n-1\<close> raises IndexError.\<close>

definition py_index :: "nat \<Rightarrow> int \<Rightarrow> error + nat" where
  "py_index n i =
     (if 0 \<le> i \<and> i < int n then Inr (nat i)
      else if - int n \<le> i \<and> i < 0 then Inr (nat (i + int n))
      else Inl IndexError)"

definition py_get :: "'a list \<Rightarrow> int \<Rightarrow> error + 'a" where
  "py_get xs i = ebind (py_index (length xs) i) (\<lambda>k. Inr (xs ! k))"

text \<open>\<open>X[:, f]\<close> for a matrix of \<open>p\<close> columns given as its list of rows.\<close>

definition np_col :: "nat \<Rightarrow> real list list \<Rightarrow> int \<Rightarrow> error + real list" where
  "np_col p X f = ebind (py_index p f) (\<lambda>k. Inr (map (\<lambda>row. row ! k) X))"

text \<open>\<open>A[idxs]\<close> for a boolean mask: the mask must be as long as the array's first
  dimension, otherwise numpy raises IndexError.\<close>

definition np_mask :: "'a list \<Rightarrow> bool list \<Rightarrow> error + 'a list" where
  "np_mask A idxs =
     (if length idxs = length A then Inr (map fst (filter snd (zip A idxs)))
      else Inl IndexError)"

definition np_mean :: "real list \<Rightarrow> real" where
  "np_mean ys = sum_list ys / real (length ys)"

section \<open>tao.py: alternating optimisation of a fitted tree\<close>

subsection \<open>Data\<close>

text \<open>The arrays of sklearn's \<open>tree_\<close> object that \<open>_tao_iter_cart\<close> reads and writes in
  place. \<open>tree_value\<close> holds, per node, the payload \<open>value[node_id]\<close> of the single output
  flattened to one row (one entry for regression, one entry per class for classification).\<close>

record tree =
  children_left :: "int list"
  children_right :: "int list"
  tree_feature :: "int list"
  tree_threshold :: "real list"
  tree_value :: "real list list"

datatype direction = L | R

type_synonym path = "(int \<times> direction) list"

text \<open>The attributes of \<open>TaoTree\<close> that the sweeps read.\<close>

record tao_tree =
  tao_prediction_task :: string
  n_iters :: int
  min_node_samples_tao :: int
  min_leaf_samples_tao :: int
  node_model :: string
  weight_errors :: bool

text \<open>The external collaborators. A fitted one-feature node model exposes its score on
  the data it was fitted to and either \<open>intercept_\<close> and \<open>coef_[0]\<close> (linear models) or
  \<open>tree_.feature[0]\<close> (stumps). \<open>fit_node_model\<close> stands for \<open>m.fit\<close> followed by
  \<open>m.score\<close> on one column; \<open>model_score\<close> stands for \<open>self.model.score(X, y)\<close> of the
  whole tree in its current state.\<close>

datatype model_class =
  LogisticRegression | DecisionTreeClassifier | LinearRegression | DecisionTreeRegressor

datatype fitted =
  Linear_fitted (fitted_score: real) real real
| Stump_fitted (fitted_score: real) int

record collaborators =
  fit_node_model :: "model_class \<Rightarrow> real list \<Rightarrow> nat list \<Rightarrow> real list \<Rightarrow> error + fitted"
  model_score :: "tree \<Rightarrow> real"

subsection \<open>Paths to the nodes\<close>

text \<open>Lines 147-159: the stack is a Python list, \<open>pop\<close> takes its last element and
  \<open>append\<close> adds at the end. The loop does not terminate on arrays that describe a
  cycle, hence the option type.\<close>

partial_function (option) dfs_paths ::
  "int list \<Rightarrow> int list \<Rightarrow> (int \<times> path) list \<Rightarrow> (int \<times> path) list
     \<Rightarrow> (error + (int \<times> path) list) option" where
  "dfs_paths cl cr stack indexes_with_prefix_paths =
     (if stack = [] then Some (Inr indexes_with_prefix_paths)
      else
        (case last stack of (node_id, path_to_node_index) \<Rightarrow>
          (case py_get cl node_id of
             Inl e \<Rightarrow> Some (Inl e)
           | Inr l \<Rightarrow>
              (case py_get cr node_id of
                 Inl e \<Rightarrow> Some (Inl e)
               | Inr r \<Rightarrow>
                  if l \<noteq> r then
                    dfs_paths cl cr
                      (butlast stack @ [(l, path_to_node_index @ [(node_id, L)]),
                                        (r, path_to_node_index @ [(node_id, R)])])
                      (indexes_with_prefix_paths @ [(node_id, path_to_node_index)])
                  else
                    dfs_paths cl cr (butlast stack)
                      (indexes_with_prefix_paths @ [(node_id, path_to_node_index)])))))"

subsection \<open>The rows that reach a node\<close>

fun filter_points_by_path ::
  "nat \<Rightarrow> tree \<Rightarrow> real list list \<Rightarrow> real list \<Rightarrow> path \<Rightarrow> error + (real list list \<times> real list)" where
  "filter_points_by_path p t X y [] = Inr (X, y)"
| "filter_points_by_path p t X y ((node_id, direction) # rest) =
     ebind (py_get (tree_feature t) node_id) (\<lambda>f.
     ebind (np_col p X f) (\<lambda>c.
     ebind (py_get (tree_threshold t) node_id) (\<lambda>th.
       let idxs = map (\<lambda>v. v \<le> th) c;
           idxs = (if direction = R then map Not idxs else idxs)
       in ebind (np_mask X idxs) (\<lambda>X'.
          ebind (np_mask y idxs) (\<lambda>y'.
            filter_points_by_path p t X' y' rest)))))"

subsection \<open>Predictions from a node\<close>

text \<open>The inner recursive \<open>predict_from_node(x, node_id)\<close>. The recursion follows child
  ids; a descent longer than the number of nodes has entered a cycle, where Python ends
  with RecursionError, so the number of nodes serves as recursion budget. (Python's own
  recursion limit on very deep trees is not modelled.)\<close>

fun predict_from_node_x :: "nat \<Rightarrow> string \<Rightarrow> tree \<Rightarrow> real list \<Rightarrow> int \<Rightarrow> error + real" where
  "predict_from_node_x 0 task t x node_id = Inl RecursionError"
| "predict_from_node_x (Suc budget) task t x node_id =
     ebind (py_get (children_left t) node_id) (\<lambda>l.
     ebind (py_get (children_right t) node_id) (\<lambda>r.
       if l = r then
         (if task = ''regression'' then
            ebind (py_get (tree_value t) node_id) (\<lambda>v.
              case v of [a] \<Rightarrow> Inr a | _ \<Rightarrow> Inl ValueError)
          else if task = ''classification'' then
            ebind (py_get (tree_value t) node_id) (\<lambda>v. py_get v 1)
          else Inl TypeError)
       else
         ebind (py_get (tree_feature t) node_id) (\<lambda>f.
         ebind (py_get x f) (\<lambda>xv.
         ebind (py_get (tree_threshold t) node_id) (\<lambda>th.
           if xv \<le> th then predict_from_node_x budget task t x l
           else predict_from_node_x budget task t x r)))))"

fun predict_from_node :: "string \<Rightarrow> tree \<Rightarrow> real list list \<Rightarrow> int \<Rightarrow> error + real list" where
  "predict_from_node task t [] node_id = Inr []"
| "predict_from_node task t (x # X) node_id =
     ebind (predict_from_node_x (length (children_left t)) task t x node_id) (\<lambda>v.
     ebind (predict_from_node task t X node_id) (\<lambda>vs. Inr (v # vs)))"

subsection \<open>The routing target and the sample weights\<close>

text \<open>Line 229: per row the pair (absolute error when routed left, absolute error when
  routed right). Line 232: \<open>argmin\<close> along each row, the first minimum on a tie.\<close>

definition y_node_absolute_errors :: "real list \<Rightarrow> real list \<Rightarrow> real list \<Rightarrow> (real \<times> real) list" where
  "y_node_absolute_errors y_node y_node_left y_node_right =
     map (\<lambda>(y, l, r). (\<bar>y - l\<bar>, \<bar>y - r\<bar>)) (zip y_node (zip y_node_left y_node_right))"

definition y_node_target :: "(real \<times> real) list \<Rightarrow> nat list" where
  "y_node_target errs = map (\<lambda>(e0, e1). if e0 \<le> e1 then 0 else 1) errs"

text \<open>Lines 235-238. The call is \<open>np.abs(errors[:, 1], errors[:, 0])\<close>: the second
  positional argument of \<open>np.abs\<close> is its output array, so the result is the absolute
  value of column 1 (also written over column 0, which is not read again).\<close>

definition sample_weight :: "bool \<Rightarrow> real list \<Rightarrow> (real \<times> real) list \<Rightarrow> real list" where
  "sample_weight we y_node errs =
     (if we then map (\<lambda>(e0, e1). \<bar>e1\<bar>) errs
      else replicate (length y_node) 1)"

subsection \<open>The best one-feature model\<close>

text \<open>Lines 246-255: the class of the node model; with an unknown task or node model the
  name \<open>m\<close> is never bound.\<close>

definition new_node_model :: "string \<Rightarrow> string \<Rightarrow> error + model_class" where
  "new_node_model task nm =
     (if task = ''classification'' then
        (if nm = ''linear'' then Inr LogisticRegression
         else if nm = ''stump'' then Inr DecisionTreeClassifier
         else Inl UnboundLocalError)
      else if task = ''regression'' then
        (if nm = ''linear'' then Inr LinearRegression
         else if nm = ''stump'' then Inr DecisionTreeRegressor
         else Inl UnboundLocalError)
      else Inl UnboundLocalError)"

text \<open>The loop of lines 245-261 over the feature numbers; its state is
  \<open>(best_score, best_feat, best_model, m)\<close>, with \<open>None\<close> for \<open>-inf\<close>, for Python's
  \<open>None\<close> and for the unbound \<open>m\<close>.\<close>

type_synonym best_state = "real option \<times> nat option \<times> fitted option \<times> fitted option"

fun best_over_features ::
  "collaborators \<Rightarrow> string \<Rightarrow> string \<Rightarrow> real list list \<Rightarrow> nat list \<Rightarrow> real list
     \<Rightarrow> nat list \<Rightarrow> best_state \<Rightarrow> error + best_state" where
  "best_over_features C task nm X_node tgt sw [] st = Inr st"
| "best_over_features C task nm X_node tgt sw (feat_num # rest) (best_score, best_feat, best_model, m) =
     ebind (new_node_model task nm) (\<lambda>cls.
     ebind (fit_node_model C cls (map (\<lambda>row. row ! feat_num) X_node) tgt sw) (\<lambda>m'.
       if (case best_score of None \<Rightarrow> True | Some b \<Rightarrow> fitted_score m' > b) then
         best_over_features C task nm X_node tgt sw rest
           (Some (fitted_score m'), Some feat_num, Some m', Some m')
       else
         best_over_features C task nm X_node tgt sw rest
           (best_score, best_feat, best_model, Some m')))"

text \<open>Lines 262-265. The linear branch reads the best model, the stump branch reads
  \<open>m\<close>, the model fitted last, and takes its \<open>tree_.feature[0]\<close>.\<close>

definition best_threshold_of :: "string \<Rightarrow> best_state \<Rightarrow> error + real" where
  "best_threshold_of nm st =
     (case st of (best_score, best_feat, best_model, m) \<Rightarrow>
       if nm = ''linear'' then
         (case best_model of
            Some (Linear_fitted s b c) \<Rightarrow> Inr (- b / c)
          | _ \<Rightarrow> Inl AttributeError)
       else if nm = ''stump'' then
         (case m of
            Some (Stump_fitted s f0) \<Rightarrow> Inr (real_of_int f0)
          | Some (Linear_fitted s b c) \<Rightarrow> Inl AttributeError
          | None \<Rightarrow> Inl UnboundLocalError)
       else Inl UnboundLocalError)"

subsection \<open>One node of a sweep\<close>

text \<open>Lines 269-285: the tentative update of \<open>feature[node_id]\<close> and
  \<open>threshold[node_id]\<close>, scored on the whole tree and undone unless the score grew.\<close>

definition try_update ::
  "collaborators \<Rightarrow> tree \<Rightarrow> nat \<Rightarrow> int \<Rightarrow> int \<Rightarrow> real \<Rightarrow> error + (tree \<times> nat)" where
  "try_update C t num_updates node_id best_feat best_threshold =
     ebind (py_get (tree_feature t) node_id) (\<lambda>old_feat.
     ebind (py_get (tree_threshold t) node_id) (\<lambda>old_threshold.
       let old_score = model_score C t in
       ebind (py_index (length (tree_feature t)) node_id) (\<lambda>kf.
       let t1 = t\<lparr>tree_feature := (tree_feature t)[kf := best_feat]\<rparr> in
       ebind (py_index (length (tree_threshold t1)) node_id) (\<lambda>kt.
       let t2 = t1\<lparr>tree_threshold := (tree_threshold t1)[kt := best_threshold]\<rparr>;
           new_score = model_score C t2
       in
         if old_score \<ge> new_score then
           Inr (t2\<lparr>tree_feature := (tree_feature t2)[kf := old_feat],
                   tree_threshold := (tree_threshold t2)[kt := old_threshold]\<rparr>,
                num_updates)
         else Inr (t2, num_updates + 1)))))"

text \<open>Lines 201-285: the step for an internal node that enough rows reach.\<close>

definition internal_node_step ::
  "collaborators \<Rightarrow> tao_tree \<Rightarrow> nat \<Rightarrow> real list list \<Rightarrow> real list \<Rightarrow> int \<Rightarrow> int \<Rightarrow> int
     \<Rightarrow> tree \<times> nat \<Rightarrow> error + (tree \<times> nat)" where
  "internal_node_step C self p X_node y_node node_id l r st =
     (case st of (t, num_updates) \<Rightarrow>
       ebind (predict_from_node (tao_prediction_task self) t X_node l) (\<lambda>y_node_left.
       ebind (predict_from_node (tao_prediction_task self) t X_node r) (\<lambda>y_node_right.
         let errs = y_node_absolute_errors y_node y_node_left y_node_right;
             tgt = y_node_target errs;
             sw = sample_weight (weight_errors self) y_node errs
         in
         ebind (best_over_features C (tao_prediction_task self) (node_model self)
                  X_node tgt sw [0..<p] (None, None, None, None)) (\<lambda>best.
         ebind (best_threshold_of (node_model self) best) (\<lambda>best_threshold.
           case fst (snd best) of
             None \<Rightarrow> Inl TypeError
           | Some best_feat \<Rightarrow>
               try_update C t num_updates node_id (int best_feat) best_threshold)))))"

text \<open>Lines 181-199 and the dispatch: a leaf is refreshed (regression only) or left
  alone, an internal node with too few rows is skipped.\<close>

definition tao_node ::
  "collaborators \<Rightarrow> tao_tree \<Rightarrow> nat \<Rightarrow> real list list \<Rightarrow> real list \<Rightarrow> tree \<times> nat
     \<Rightarrow> int \<times> path \<Rightarrow> error + (tree \<times> nat)" where
  "tao_node C self p X y st np =
     (case st of (t, num_updates) \<Rightarrow> case np of (node_id, path_to_node_index) \<Rightarrow>
       ebind (filter_points_by_path p t X y path_to_node_index) (\<lambda>(X_node, y_node).
       ebind (py_get (children_left t) node_id) (\<lambda>l.
       ebind (py_get (children_right t) node_id) (\<lambda>r.
         if l = r then
           (if tao_prediction_task self = ''regression''
               \<and> int (length X_node) \<ge> min_leaf_samples_tao self then
              ebind (py_index (length (tree_value t)) node_id) (\<lambda>k.
                Inr (t\<lparr>tree_value := (tree_value t)
                          [k := map (\<lambda>_. np_mean y_node) (tree_value t ! k)]\<rparr>,
                     num_updates))
            else Inr (t, num_updates))
         else if int (length X_node) < min_node_samples_tao self then Inr (t, num_updates)
         else internal_node_step C self p X_node y_node node_id l r (t, num_updates)))))"

subsection \<open>Sweeps\<close>

text \<open>The \<open>for\<close> loop of lines 164-285. The arrays are updated in place, so an exception
  at one node leaves the tree as the earlier nodes made it: the loop returns the state
  together with the exception, if any.\<close>

fun tao_nodes ::
  "collaborators \<Rightarrow> tao_tree \<Rightarrow> nat \<Rightarrow> real list list \<Rightarrow> real list \<Rightarrow> tree \<times> nat
     \<Rightarrow> (int \<times> path) list \<Rightarrow> (tree \<times> nat) \<times> error option" where
  "tao_nodes C self p X y st [] = (st, None)"
| "tao_nodes C self p X y st (np # rest) =
     (case tao_node C self p X y st np of
        Inl e \<Rightarrow> (st, Some e)
      | Inr st' \<Rightarrow> tao_nodes C self p X y st' rest)"

text \<open>\<open>_tao_iter_cart\<close>: the tree after the sweep and either the exception raised or
  \<open>num_updates\<close>; \<open>None\<close> when the path computation does not terminate.\<close>

definition tao_iter_cart ::
  "collaborators \<Rightarrow> tao_tree \<Rightarrow> nat \<Rightarrow> real list list \<Rightarrow> real list \<Rightarrow> tree
     \<Rightarrow> (tree \<times> (error + nat)) option" where
  "tao_iter_cart C self p X y t =
     (case dfs_paths (children_left t) (children_right t) [(0, [])] [] of
        None \<Rightarrow> None
      | Some (Inl e) \<Rightarrow> Some (t, Inl e)
      | Some (Inr nodes) \<Rightarrow>
          (case tao_nodes C self p X y (t, 0) nodes of
             ((t', num_updates), None) \<Rightarrow> Some (t', Inr num_updates)
           | ((t', num_updates), Some e) \<Rightarrow> Some (t', Inl e)))"

text \<open>Lines 121-124 of \<open>fit\<close>: at most \<open>n_iters\<close> sweeps, stopping after a sweep without
  an update. The first argument counts the sweeps still allowed.\<close>

fun tao_sweeps ::
  "collaborators \<Rightarrow> tao_tree \<Rightarrow> nat \<Rightarrow> real list list \<Rightarrow> real list \<Rightarrow> nat \<Rightarrow> tree
     \<Rightarrow> (tree \<times> error option) option" where
  "tao_sweeps C self p X y 0 t = Some (t, None)"
| "tao_sweeps C self p X y (Suc k) t =
     (case tao_iter_cart C self p X y t of
        None \<Rightarrow> None
      | Some (t', Inl e) \<Rightarrow> Some (t', Some e)
      | Some (t', Inr num_updates) \<Rightarrow>
          if num_updates = 0 then Some (t', None)
          else tao_sweeps C self p X y k t')"

definition fit_sweeps ::
  "collaborators \<Rightarrow> tao_tree \<Rightarrow> nat \<Rightarrow> real list list \<Rightarrow> real list \<Rightarrow> tree
     \<Rightarrow> (tree \<times> error option) option" where
  "fit_sweeps C self p X y t = tao_sweeps C self p X y (nat (n_iters self)) t"

section \<open>anova-figs.py: a greedy sum of trees for several categorical outputs\<close>

subsection \<open>Tensors\<close>

text \<open>An array of shape \<open>[n] + y_levels\<close> is the list of its \<open>n\<close> rows, each row the cells
  of one sample in row-major order; an array of shape \<open>y_levels\<close> is one such row.\<close>

type_synonym tensor = "real list list"

text \<open>\<open>astype(int)\<close> truncates toward zero to a 64-bit integer; a value outside the range
  of \<open>int64\<close> gives the smallest \<open>int64\<close>, the result of the conversion on x86-64. The
  arithmetic of \<open>int64\<close> arrays wraps around.\<close>

definition np_trunc :: "real \<Rightarrow> int" where
  "np_trunc x =
     (let t = (if 0 \<le> x then \<lfloor>x\<rfloor> else \<lceil>x\<rceil>)
      in if - (2 ^ 63) \<le> t \<and> t < 2 ^ 63 then t else - (2 ^ 63))"

definition int64 :: "int \<Rightarrow> int" where
  "int64 i = (i + 2 ^ 63) mod 2 ^ 64 - 2 ^ 63"

definition cells :: "int list \<Rightarrow> nat" where
  "cells levels = prod_list (map nat levels)"

text \<open>\<open>np.zeros\<close> refuses a negative dimension, and a shape whose size in bytes (eight per
  cell, the dimensions of size zero left out) does not fit the signed 64-bit index type;
  both with ValueError. The memory of the machine is not modelled.\<close>

definition np_shape_ok :: "int list \<Rightarrow> bool" where
  "np_shape_ok dims \<longleftrightarrow>
     \<not> list_ex (\<lambda>d. d < 0) dims \<and> 8 * prod_list (filter (\<lambda>d. d \<noteq> 0) dims) < 2 ^ 63"

definition np_zeros_row :: "int list \<Rightarrow> error + real list" where
  "np_zeros_row levels =
     (if np_shape_ok levels then Inr (replicate (cells levels) 0) else Inl ValueError)"

definition np_zeros :: "nat \<Rightarrow> int list \<Rightarrow> error + tensor" where
  "np_zeros m levels =
     (if np_shape_ok (int m # levels) then Inr (replicate m (replicate (cells levels) 0))
      else Inl ValueError)"

text \<open>The position of the cell with index tuple \<open>is\<close> in a row of shape \<open>levels\<close>; every
  index goes through Python's index check. The tuples built by the source have one
  index per dimension.\<close>

fun ravel :: "int list \<Rightarrow> int list \<Rightarrow> error + nat" where
  "ravel [] [] = Inr 0"
| "ravel (l # ls) (i # is) =
     ebind (py_index (nat l) i) (\<lambda>k.
     ebind (ravel ls is) (\<lambda>r. Inr (k * cells ls + r)))"
| "ravel _ _ = Inl IndexError"

fun unravel :: "int list \<Rightarrow> nat \<Rightarrow> int list" where
  "unravel [] pos = []"
| "unravel (l # ls) pos = int (pos div cells ls) # unravel ls (pos mod cells ls)"

text \<open>All index tuples of a shape, in row-major order.\<close>

fun all_indices :: "int list \<Rightarrow> nat list list" where
  "all_indices [] = [[]]"
| "all_indices (l # ls) = concat (map (\<lambda>i. map ((#) i) (all_indices ls)) [0..<nat l])"

text \<open>The entries of \<open>xs\<close> at the positions in \<open>dims\<close>, in the order of \<open>xs\<close>.\<close>

definition keep_dims :: "nat list \<Rightarrow> 'a list \<Rightarrow> 'a list" where
  "keep_dims dims xs = map fst (filter (\<lambda>(x, i). i \<in> set dims) (zip xs [0..<length xs]))"

text \<open>\<open>a op= b\<close> for arrays of shapes \<open>[n] + y_levels\<close> and \<open>[m] + y_levels\<close>: numpy
  broadcasts a single row of \<open>b\<close> and raises ValueError on any other mismatch.\<close>

definition np_row_op :: "(real \<Rightarrow> real \<Rightarrow> real) \<Rightarrow> real list \<Rightarrow> real list \<Rightarrow> error + real list" where
  "np_row_op f a b =
     (if length b = length a then Inr (map2 f a b) else Inl ValueError)"

fun np_rows_op :: "(real \<Rightarrow> real \<Rightarrow> real) \<Rightarrow> tensor \<Rightarrow> tensor \<Rightarrow> error + tensor" where
  "np_rows_op f [] [] = Inr []"
| "np_rows_op f (a # as) (b # bs) =
     ebind (np_row_op f a b) (\<lambda>c.
     ebind (np_rows_op f as bs) (\<lambda>cs. Inr (c # cs)))"
| "np_rows_op f _ _ = Inl ValueError"

definition np_inplace :: "(real \<Rightarrow> real \<Rightarrow> real) \<Rightarrow> tensor \<Rightarrow> tensor \<Rightarrow> error + tensor" where
  "np_inplace f a b =
     (if length b = length a then np_rows_op f a b
      else if length b = 1 then np_rows_op f a (replicate (length a) (hd b))
      else Inl ValueError)"

subsection \<open>Nodes and the estimator\<close>

text \<open>The fields of \<open>Node\<close>. Nodes are mutable objects shared between the pool of
  potential splits and the trees, so they live in a store (a list, the address of a node
  is its position) and refer to each other by address. \<open>node_value\<close> is the field
  \<open>value\<close>.\<close>

record node =
  is_root :: bool
  idxs :: "bool list"
  tree_num :: nat
  feature :: "int option"
  impurity_reduction :: "real option"
  node_value :: "real list"
  threshold :: "real option"
  left :: "nat option"
  right :: "nat option"
  left_temp :: "nat option"
  right_temp :: "nat option"

text \<open>The attributes of \<open>AFIGS\<close>: \<open>n_rows\<close> is \<open>self.n\<close>, \<open>complexity\<close> is
  \<open>self.complexity_\<close>, \<open>trees\<close> is \<open>self.trees_\<close> (\<open>None\<close> while the attribute does not
  exist), \<open>store\<close> holds the nodes.\<close>

record afigs =
  max_int :: "int option"
  max_rules :: "int option"
  min_impurity_decrease :: real
  prediction_task :: string
  y_levels :: "int list option"
  n_rows :: "nat option"
  complexity :: int
  trees :: "nat option list option"
  store :: "node list"

text \<open>The arrays of \<open>stump.tree_\<close> that \<open>_construct_node_with_stump\<close> reads.\<close>

record stump_tree =
  st_feature :: "int list"
  st_threshold :: "real list"
  st_impurity :: "real list"
  st_n_node_samples :: "nat list"

text \<open>The external collaborators: \<open>DecisionTreeRegressor(max_depth=1).fit\<close> on the
  selected rows, their targets and their weights, and sklearn's \<open>check_array\<close>.\<close>

record sk =
  stump_fit :: "real list list \<Rightarrow> real list list \<Rightarrow> real list option \<Rightarrow> error + stump_tree"
  check_array :: "real list list \<Rightarrow> error + real list list"

datatype py_value = NotImplemented | PyNone | IntArray "int list list" | Tensor tensor

subsection \<open>\<open>_init_y\<close> and \<open>_flatten_y\<close>\<close>

text \<open>\<open>np.max(y, axis=0)\<close>: the maximum of every column; a reduction over no rows raises
  ValueError.\<close>

definition np_max_axis0 :: "real list list \<Rightarrow> error + real list" where
  "np_max_axis0 y =
     (if y = [] then Inl ValueError
      else Inr (map (\<lambda>col. fold max (tl col) (hd col)) (transpose y)))"

text \<open>Lines 85-88: row \<open>i\<close> of the one-hot array is zero but for a one at the cell that
  row \<open>i\<close> of \<open>y\<close>, cast to integers, indexes.\<close>

fun onehot_rows :: "int list \<Rightarrow> real list list \<Rightarrow> error + tensor" where
  "onehot_rows levels [] = Inr []"
| "onehot_rows levels (r # rs) =
     ebind (ravel levels (map np_trunc r)) (\<lambda>k.
     ebind (onehot_rows levels rs) (\<lambda>t.
       Inr ((replicate (cells levels) 0)[k := 1] # t)))"

text \<open>\<open>itertools.combinations\<close>.\<close>

fun combinations :: "'a list \<Rightarrow> nat \<Rightarrow> 'a list list" where
  "combinations xs 0 = [[]]"
| "combinations [] (Suc r) = []"
| "combinations (x # xs) (Suc r) =
     map ((#) x) (combinations xs r) @ combinations xs (Suc r)"

text \<open>\<open>_flatten_y\<close>: sum over the dimensions not in \<open>dims\<close>, then one row per sample. In
  the row representation the two branches on \<open>ndim\<close> coincide.\<close>

definition flatten_row :: "int list \<Rightarrow> nat list \<Rightarrow> real list \<Rightarrow> real list" where
  "flatten_row levels dims row =
     map (\<lambda>sub. sum_list (map snd
            (filter (\<lambda>(idx, v). keep_dims dims idx = sub) (zip (all_indices levels) row))))
         (all_indices (keep_dims dims levels))"

definition flatten_y :: "int list \<Rightarrow> tensor \<Rightarrow> nat list \<Rightarrow> tensor" where
  "flatten_y levels y_onehot dims = map (flatten_row levels dims) y_onehot"

text \<open>\<open>_init_y\<close> returns the updated estimator, \<open>y_dict\<close> (a dict keeps the order of
  insertion, its keys are distinct) and \<open>y_onehot\<close>. When the one-hot array cannot be
  built, \<open>y_levels\<close> and \<open>n\<close> have been assigned already.\<close>

text \<open>Line 81: the cardinality of every output column.\<close>

definition y_levels_of :: "real list list \<Rightarrow> error + int list" where
  "y_levels_of y = ebind (np_max_axis0 y) (\<lambda>mx. Inr (map (\<lambda>v. int64 (np_trunc v + 1)) mx))"

definition init_y ::
  "afigs \<Rightarrow> real list list
     \<Rightarrow> (error \<times> afigs) + (afigs \<times> (nat list \<times> tensor) list \<times> tensor)" where
  "init_y self y =
     ebind (raising self (y_levels_of y)) (\<lambda>levels.
       let self1 = self\<lparr>y_levels := Some levels, n_rows := Some (length y)\<rparr> in
       ebind (raising self1 (np_zeros (length y) levels)) (\<lambda>z.
       ebind (raising self1 (onehot_rows levels y)) (\<lambda>y_onehot.
         let y_cols = [0..<length (hd y)];
             mi = (case max_int self1 of
                     None \<Rightarrow> int (length y_cols)
                   | Some m \<Rightarrow> if m > int (length y_cols) then int (length y_cols) else m);
             self2 = self1\<lparr>max_int := Some mi\<rparr>;
             y_dims = concat (map (combinations y_cols) [1..<nat (mi + 1)]);
             y_dict = map (\<lambda>dims. (dims, flatten_y levels y_onehot dims)) y_dims
         in Inr (self2, y_dict, y_onehot))))"

subsection \<open>\<open>_compute_node_value\<close>\<close>

text \<open>\<open>np.unique(rows, axis=0, return_counts=True)\<close>: the distinct rows in lexicographic
  order, each with the number of its occurrences.\<close>

definition np_unique_counts :: "real list list \<Rightarrow> (real list \<times> nat) list" where
  "np_unique_counts rows = map (\<lambda>r. (r, count_list rows r)) (sort (remdups rows))"

fun assign_values :: "int list \<Rightarrow> real \<Rightarrow> (real list \<times> nat) list \<Rightarrow> real list \<Rightarrow> error + real list" where
  "assign_values levels tot [] v = Inr v"
| "assign_values levels tot ((r, c) # rest) v =
     ebind (ravel levels (map np_trunc r)) (\<lambda>k.
       assign_values levels tot rest (v[k := real c / tot]))"

definition compute_node_value :: "int list \<Rightarrow> real list list \<Rightarrow> bool list \<Rightarrow> error + real list" where
  "compute_node_value levels y_all ix =
     ebind (np_mask y_all ix) (\<lambda>rows.
     ebind (np_zeros_row levels) (\<lambda>z.
       assign_values levels (real (length (filter id ix))) (np_unique_counts rows) z))"

subsection \<open>\<open>_construct_node_with_stump\<close>\<close>

definition new_node :: "bool list \<Rightarrow> real list \<Rightarrow> nat \<Rightarrow> node" where
  "new_node ix v tn =
     \<lparr>is_root = False, idxs = ix, tree_num = tn, feature = None, impurity_reduction = None,
      node_value = v, threshold = None, left = None, right = None,
      left_temp = None, right_temp = None\<rparr>"

text \<open>The function allocates its nodes at the end of the store and returns the new
  store with the address of the node it returns.\<close>

definition construct_node_with_stump ::
  "sk \<Rightarrow> int list \<Rightarrow> nat \<Rightarrow> node list \<Rightarrow> real list list \<Rightarrow> real list list \<Rightarrow> real list list
     \<Rightarrow> bool list \<Rightarrow> nat \<Rightarrow> real list option \<Rightarrow> error + (node list \<times> nat)" where
  "construct_node_with_stump K levels p S X y y_all ix tn weights =
     ebind (case weights of
              None \<Rightarrow> Inr None
            | Some w \<Rightarrow> ebind (np_mask w ix) (\<lambda>w'. Inr (Some w'))) (\<lambda>sw.
     ebind (np_mask X ix) (\<lambda>Xs.
     ebind (np_mask y ix) (\<lambda>ys.
     ebind (stump_fit K Xs ys sw) (\<lambda>stump.
     ebind (compute_node_value levels y_all ix) (\<lambda>v.
       if length (st_feature stump) = 1 then
         ebind (py_get (st_feature stump) 0) (\<lambda>f.
         ebind (py_get (st_threshold stump) 0) (\<lambda>th.
           Inr (S @ [(new_node ix v tn)\<lparr>feature := Some f, threshold := Some th\<rparr>],
                length S)))
       else
         ebind (py_get (st_impurity stump) 0) (\<lambda>i0.
         ebind (py_get (st_impurity stump) 1) (\<lambda>i1.
         ebind (py_get (st_n_node_samples stump) 1) (\<lambda>n1.
         ebind (py_get (st_n_node_samples stump) 0) (\<lambda>n0.
         ebind (py_get (st_impurity stump) 2) (\<lambda>i2.
         ebind (py_get (st_n_node_samples stump) 2) (\<lambda>n2.
         ebind (py_get (st_feature stump) 0) (\<lambda>f.
         ebind (py_get (st_threshold stump) 0) (\<lambda>th.
           let ir = (i0 - i1 * real n1 / real n0 - i2 * real n2 / real n0)
                      * real (length (filter id ix))
           in
           ebind (np_col p X f) (\<lambda>c.
             let idxs_split = map (\<lambda>v. v \<le> th) c;
                 idxs_left = map2 (\<lambda>s i. s \<and> i) idxs_split ix;
                 idxs_right = map2 (\<lambda>s i. \<not> s \<and> i) idxs_split ix
             in
             ebind (compute_node_value levels y_all idxs_left) (\<lambda>value_left.
             ebind (compute_node_value levels y_all idxs_right) (\<lambda>value_right.
               Inr (S @ [(new_node ix v tn)\<lparr>feature := Some f, threshold := Some th,
                            impurity_reduction := Some ir,
                            left_temp := Some (length S + 1),
                            right_temp := Some (length S + 2)\<rparr>,
                         new_node idxs_left value_left tn,
                         new_node idxs_right value_right tn],
                    length S)))))))))))))))))"

subsection \<open>\<open>_predict_tree\<close>\<close>

text \<open>The recursion of \<open>_predict_tree_single_point\<close> follows child addresses; as for
  \<open>predict_from_node\<close>, the number of nodes in the store bounds every descent that does
  not run into a cycle.\<close>

fun predict_tree_single_point :: "nat \<Rightarrow> node list \<Rightarrow> nat \<Rightarrow> real list \<Rightarrow> error + real list" where
  "predict_tree_single_point 0 S rt x = Inl RecursionError"
| "predict_tree_single_point (Suc budget) S rt x =
     (if left (S ! rt) = None \<and> right (S ! rt) = None then Inr (node_value (S ! rt))
      else
        (case feature (S ! rt) of
           None \<Rightarrow> Inl TypeError
         | Some f \<Rightarrow>
            ebind (py_get x f) (\<lambda>xv.
              case threshold (S ! rt) of
                None \<Rightarrow> Inl TypeError
              | Some th \<Rightarrow>
                  if xv \<le> th then
                    (case left (S ! rt) of
                       None \<Rightarrow> Inr (node_value (S ! rt))
                     | Some l \<Rightarrow> predict_tree_single_point budget S l x)
                  else
                    (case right (S ! rt) of
                       None \<Rightarrow> Inr (node_value (S ! rt))
                     | Some r \<Rightarrow> predict_tree_single_point budget S r x))))"

fun predict_rows :: "node list \<Rightarrow> nat \<Rightarrow> real list list \<Rightarrow> error + tensor" where
  "predict_rows S rt [] = Inr []"
| "predict_rows S rt (x # X) =
     ebind (predict_tree_single_point (length S) S rt x) (\<lambda>v.
     ebind (predict_rows S rt X) (\<lambda>vs. Inr (v # vs)))"

text \<open>\<open>preds[i, ...] = v\<close> needs a value of the shape of a row.\<close>

definition predict_tree :: "int list \<Rightarrow> node list \<Rightarrow> nat \<Rightarrow> real list list \<Rightarrow> error + tensor" where
  "predict_tree levels S rt X =
     ebind (np_zeros (length X) levels) (\<lambda>preds.
     ebind (predict_rows S rt X) (\<lambda>vs.
       np_rows_op (\<lambda>z v. v) preds vs))"

subsection \<open>The residual targets\<close>

fun emap :: "('a \<Rightarrow> error + 'b) \<Rightarrow> 'a list \<Rightarrow> error + 'b list" where
  "emap f [] = Inr []"
| "emap f (x # xs) = ebind (f x) (\<lambda>v. ebind (emap f xs) (\<lambda>vs. Inr (v # vs)))"

text \<open>A dict with the keys \<open>0 .. len-1\<close>, held as the list of its values.\<close>

definition dict_get :: "'a list \<Rightarrow> nat \<Rightarrow> error + 'a" where
  "dict_get d k = (if k < length d then Inr (d ! k) else Inl KeyError)"

text \<open>Lines 263-266: the inner loop over the other trees, for the tree \<open>t\<close> with the
  running residual \<open>res\<close>; \<open>keys\<close> are the keys of \<open>y_dict\<close>.\<close>

fun subtract_others ::
  "nat list list \<Rightarrow> nat \<Rightarrow> tensor list \<Rightarrow> nat list \<Rightarrow> tensor \<Rightarrow> error + tensor" where
  "subtract_others keys t preds [] res = Inr res"
| "subtract_others keys t preds (u # us) res =
     (if u \<noteq> t \<and> set (keys ! t) \<inter> set (keys ! u) \<noteq> {} then
        ebind (dict_get preds u) (\<lambda>q.
        ebind (np_inplace (-) res q) (\<lambda>res'.
          subtract_others keys t preds us res'))
      else subtract_others keys t preds us res)"

definition residual_for :: "nat list list \<Rightarrow> tensor \<Rightarrow> tensor list \<Rightarrow> nat \<Rightarrow> error + tensor" where
  "residual_for keys y_onehot preds t =
     subtract_others keys t preds [0..<length keys] y_onehot"

text \<open>Lines 258-266.\<close>

definition update_residuals :: "nat list list \<Rightarrow> tensor \<Rightarrow> tensor list \<Rightarrow> error + tensor list" where
  "update_residuals keys y_onehot preds =
     emap (residual_for keys y_onehot preds) [0..<length keys]"

subsection \<open>\<open>fit\<close>\<close>

text \<open>The estimator and the local variables of \<open>fit\<close> that live across iterations of
  its loop. The two dicts are keyed by tree number.\<close>

record fit_state =
  estimator :: afigs
  potential_splits :: "nat list"
  finished :: bool
  y_predictions_per_tree :: "tensor list"
  y_residuals_per_tree :: "tensor list"

text \<open>\<open>sorted(potential_splits, key=lambda x: x.impurity_reduction)\<close>: a stable sort;
  with two or more entries every key is compared, and comparing \<open>None\<close> raises
  TypeError.\<close>

definition ir_key :: "node list \<Rightarrow> nat \<Rightarrow> real" where
  "ir_key S a = (case impurity_reduction (S ! a) of Some v \<Rightarrow> v | None \<Rightarrow> 0)"

definition sorted_by_impurity_reduction :: "node list \<Rightarrow> nat list \<Rightarrow> error + nat list" where
  "sorted_by_impurity_reduction S pool =
     (if 2 \<le> length pool \<and> list_ex (\<lambda>a. impurity_reduction (S ! a) = None) pool
      then Inl TypeError
      else Inr (sort_key (ir_key S) pool))"

text \<open>Lines 199-204: one candidate root per entry of \<open>y_dict\<close>.\<close>

fun init_roots ::
  "sk \<Rightarrow> int list \<Rightarrow> nat \<Rightarrow> real list list \<Rightarrow> real list list \<Rightarrow> bool list
     \<Rightarrow> real list option \<Rightarrow> node list \<Rightarrow> nat \<Rightarrow> (nat list \<times> tensor) list \<Rightarrow> nat list
     \<Rightarrow> error + (node list \<times> nat list)" where
  "init_roots K levels p X y ix w S tn [] pool = Inr (S, pool)"
| "init_roots K levels p X y ix w S tn ((tree_id, y_resp) # rest) pool =
     ebind (construct_node_with_stump K levels p S X y_resp y ix tn w) (\<lambda>(S', a).
       init_roots K levels p X y ix w S' (Suc tn) rest (pool @ [a]))"

text \<open>Lines 188-207: everything before the loop. Rebinding \<open>trees_\<close> makes the nodes of
  an earlier fit unreachable, so the store starts empty. The candidate roots are not
  attributes of the estimator: when their construction or the sort raises, the
  estimator is as line 194 left it.\<close>

definition fit_init ::
  "sk \<Rightarrow> afigs \<Rightarrow> nat \<Rightarrow> real list list \<Rightarrow> real list list \<Rightarrow> real list option
     \<Rightarrow> (error \<times> afigs) + (fit_state \<times> (nat list \<times> tensor) list \<times> tensor)" where
  "fit_init K slf p X y w =
     ebind (init_y (slf\<lparr>complexity := 0\<rparr>) y) (\<lambda>(self1, y_dict, y_onehot).
       let self2 = self1\<lparr>trees := Some (replicate (length y_dict) None), store := []\<rparr> in
       case y_levels self2 of
         None \<Rightarrow> Inl (TypeError, self2)
       | Some levels \<Rightarrow>
          (case n_rows self2 of
             None \<Rightarrow> Inl (TypeError, self2)
           | Some m \<Rightarrow>
              ebind (raising self2
                       (init_roots K levels p X y (replicate m True) w (store self2) 0 y_dict []))
                (\<lambda>(S, pool).
                  let S' = fold (\<lambda>a S. S[a := (S ! a)\<lparr>is_root := True\<rparr>]) pool S in
                  ebind (raising self2 (sorted_by_impurity_reduction S' pool)) (\<lambda>pool'.
                    Inr (\<lparr>estimator = self2\<lparr>store := S'\<rparr>, potential_splits = pool',
                          finished = False, y_predictions_per_tree = [],
                          y_residuals_per_tree = []\<rparr>,
                         y_dict, y_onehot)))))"

text \<open>Lines 268-297: every entry of the pool is fitted again on the residual target of
  its tree; it keeps its address, mask, value and root flag. An entry may be \<open>None\<close>
  (a child that was never attached), on which the attribute access fails. The entries
  are updated one after the other, so an exception comes with the store as the entries
  before it left it.\<close>

fun refit ::
  "sk \<Rightarrow> int list \<Rightarrow> nat \<Rightarrow> real list list \<Rightarrow> real list list \<Rightarrow> real list option
     \<Rightarrow> nat list list \<Rightarrow> tensor list \<Rightarrow> node list \<Rightarrow> nat option list \<Rightarrow> nat list
     \<Rightarrow> (error \<times> node list) + (node list \<times> nat list)" where
  "refit K levels p X y w keys ress S [] potential_splits_new = Inr (S, potential_splits_new)"
| "refit K levels p X y w keys ress S (ps # rest) potential_splits_new =
     (case ps of
        None \<Rightarrow> Inl (AttributeError, S)
      | Some a \<Rightarrow>
          ebind (raising S (py_get keys (int (tree_num (S ! a))))) (\<lambda>tree_id.
          ebind (raising S (dict_get ress (tree_num (S ! a)))) (\<lambda>res.
          ebind (raising S
                   (construct_node_with_stump K levels p S X (flatten_y levels res tree_id) y
                      (idxs (S ! a)) (tree_num (S ! a)) w)) (\<lambda>(S1, b).
            let S2 = S1[a := (S1 ! a)\<lparr>feature := feature (S1 ! b),
                                     threshold := threshold (S1 ! b),
                                     impurity_reduction := impurity_reduction (S1 ! b),
                                     left_temp := left_temp (S1 ! b),
                                     right_temp := right_temp (S1 ! b)\<rparr>]
            in refit K levels p X y w keys ress S2 rest
                 (if impurity_reduction (S2 ! a) \<noteq> None then potential_splits_new @ [a]
                  else potential_splits_new)))))"

text \<open>Lines 226-229: a committed root starts its tree.\<close>

definition start_tree :: "node list \<Rightarrow> nat option list \<Rightarrow> nat \<Rightarrow> error + nat option list" where
  "start_tree S ts a =
     (if is_root (S ! a) then
        ebind (py_index (length ts) (int (tree_num (S ! a)))) (\<lambda>k. Inr (ts[k := Some a]))
      else Inr ts)"

text \<open>Line 244: the candidate children become the children.\<close>

definition attach_children :: "node list \<Rightarrow> nat \<Rightarrow> node list" where
  "attach_children S a = S[a := (S ! a)\<lparr>left := left_temp (S ! a), right := right_temp (S ! a)\<rparr>]"

text \<open>Lines 250-255: the prediction of every tree, zero for a tree not yet started.\<close>

definition predictions_per_tree ::
  "int list \<Rightarrow> nat \<Rightarrow> node list \<Rightarrow> nat option list \<Rightarrow> real list list \<Rightarrow> error + tensor list" where
  "predictions_per_tree levels m S ts X =
     emap (\<lambda>t. case ts ! t of
                 None \<Rightarrow> np_zeros m levels
               | Some r \<Rightarrow> predict_tree levels S r X)
          [0..<length ts]"

text \<open>Lines 220-305: the node \<open>a\<close> popped from the pool is committed, the predictions
  and residuals of all trees are computed anew, and the pool is fitted again.\<close>

definition commit_and_update ::
  "sk \<Rightarrow> nat \<Rightarrow> real list list \<Rightarrow> real list list \<Rightarrow> real list option
     \<Rightarrow> (nat list \<times> tensor) list \<Rightarrow> tensor \<Rightarrow> fit_state \<Rightarrow> nat
     \<Rightarrow> (error \<times> afigs) + fit_state" where
  "commit_and_update K p X y w y_dict y_onehot st a =
     (let slf = (estimator st)\<lparr>complexity := complexity (estimator st) + 1\<rparr> in
      case trees slf of
        None \<Rightarrow> Inl (AttributeError, slf)
      | Some ts \<Rightarrow>
         ebind (raising slf (start_tree (store slf) ts a)) (\<lambda>ts1.
         let S1 = attach_children (store slf) a;
             slf1 = slf\<lparr>trees := Some ts1, store := S1\<rparr>;
             pool1 = map Some (potential_splits st) @ [left (S1 ! a), right (S1 ! a)]
         in
         case y_levels slf of
           None \<Rightarrow> Inl (TypeError, slf1)
         | Some levels \<Rightarrow>
            (case n_rows slf of
               None \<Rightarrow> Inl (TypeError, slf1)
             | Some m \<Rightarrow>
                ebind (raising slf1 (predictions_per_tree levels m S1 ts1 X)) (\<lambda>preds.
                ebind (raising slf1 (update_residuals (map fst y_dict) y_onehot preds)) (\<lambda>ress.
                ebind (raising_in (\<lambda>S. slf1\<lparr>store := S\<rparr>)
                         (refit K levels p X y w (map fst y_dict) ress S1 pool1 [])) (\<lambda>(S2, new).
                ebind (raising (slf1\<lparr>store := S2\<rparr>) (sorted_by_impurity_reduction S2 new))
                  (\<lambda>pool2.
                  Inr (st\<lparr>estimator := slf\<lparr>trees := Some ts1, store := S2\<rparr>,
                          potential_splits := pool2,
                          finished := (case max_rules slf of
                                         None \<Rightarrow> finished st
                                       | Some mr \<Rightarrow> if complexity slf \<ge> mr then True
                                                    else finished st),
                          y_predictions_per_tree := preds,
                          y_residuals_per_tree := ress\<rparr>))))))))"

text \<open>Lines 212-305: one iteration of the loop. \<open>pop\<close> takes the last entry.\<close>

definition fit_iteration ::
  "sk \<Rightarrow> nat \<Rightarrow> real list list \<Rightarrow> real list list \<Rightarrow> real list option
     \<Rightarrow> (nat list \<times> tensor) list \<Rightarrow> tensor \<Rightarrow> fit_state \<Rightarrow> (error \<times> afigs) + fit_state" where
  "fit_iteration K p X y w y_dict y_onehot st =
     (let a = last (potential_splits st);
          st1 = st\<lparr>potential_splits := butlast (potential_splits st)\<rparr>
      in
      case impurity_reduction (store (estimator st1) ! a) of
        None \<Rightarrow> Inl (TypeError, estimator st1)
      | Some ir \<Rightarrow>
          if ir < min_impurity_decrease (estimator st1) then Inr (st1\<lparr>finished := True\<rparr>)
          else commit_and_update K p X y w y_dict y_onehot st1 a)"

text \<open>The loop of line 211. Nothing in \<open>fit\<close> bounds the number of its iterations when
  \<open>max_rules\<close> is \<open>None\<close>, hence the option type.\<close>

partial_function (option) fit_loop ::
  "sk \<Rightarrow> nat \<Rightarrow> real list list \<Rightarrow> real list list \<Rightarrow> real list option
     \<Rightarrow> (nat list \<times> tensor) list \<Rightarrow> tensor \<Rightarrow> fit_state
     \<Rightarrow> ((error \<times> afigs) + fit_state) option" where
  "fit_loop K p X y w y_dict y_onehot st =
     (if potential_splits st \<noteq> [] \<and> \<not> finished st then
        (case fit_iteration K p X y w y_dict y_onehot st of
           Inl e \<Rightarrow> Some (Inl e)
         | Inr st' \<Rightarrow> fit_loop K p X y w y_dict y_onehot st')
      else Some (Inr st))"

text \<open>\<open>fit\<close> for a matrix \<open>X\<close> of \<open>p\<close> columns; \<open>feature_names\<close> and \<open>verbose\<close> do not
  influence the model and are left out. The result is the estimator that \<open>fit\<close> returns,
  or the exception with the estimator as the raise leaves it.\<close>

definition fit ::
  "sk \<Rightarrow> afigs \<Rightarrow> nat \<Rightarrow> real list list \<Rightarrow> real list list \<Rightarrow> real list option
     \<Rightarrow> ((error \<times> afigs) + afigs) option" where
  "fit K slf p X y w =
     (case fit_init K slf p X y w of
        Inl e \<Rightarrow> Some (Inl e)
      | Inr (st, y_dict, y_onehot) \<Rightarrow>
          (case fit_loop K p X y w y_dict y_onehot st of
             None \<Rightarrow> None
           | Some (Inl e) \<Rightarrow> Some (Inl e)
           | Some (Inr st') \<Rightarrow> Some (Inr (estimator st'))))"

subsection \<open>\<open>predict\<close> and \<open>predict_proba\<close>\<close>

fun add_trees ::
  "int list \<Rightarrow> node list \<Rightarrow> real list list \<Rightarrow> nat option list \<Rightarrow> tensor \<Rightarrow> error + tensor" where
  "add_trees levels S X [] preds = Inr preds"
| "add_trees levels S X (None # ts) preds = add_trees levels S X ts preds"
| "add_trees levels S X (Some r # ts) preds =
     ebind (predict_tree levels S r X) (\<lambda>q.
     ebind (np_inplace (+) preds q) (\<lambda>preds'.
       add_trees levels S X ts preds'))"

text \<open>Lines 335-338 and 352-355: the sum of the trees, in an array with \<open>self.n\<close>
  rows.\<close>

definition sum_trees :: "afigs \<Rightarrow> real list list \<Rightarrow> error + tensor" where
  "sum_trees slf X =
     (case n_rows slf of
        None \<Rightarrow> Inl TypeError
      | Some m \<Rightarrow>
         (case y_levels slf of
            None \<Rightarrow> Inl TypeError
          | Some levels \<Rightarrow>
             ebind (np_zeros m levels) (\<lambda>preds.
               case trees slf of
                 None \<Rightarrow> Inl AttributeError
               | Some ts \<Rightarrow> add_trees levels (store slf) X ts preds)))"

text \<open>Lines 344-345 for one row: the coordinates of the first cell that holds the
  maximum. \<open>preds[i, :]\<close> needs at least one output dimension, \<open>np.max\<close> at least one
  cell.\<close>

definition best_class :: "int list \<Rightarrow> real list \<Rightarrow> error + int list" where
  "best_class levels row =
     (if levels = [] then Inl IndexError
      else if row = [] then Inl ValueError
      else Inr (unravel levels
                  (length (takeWhile (\<lambda>v. v \<noteq> fold max (tl row) (hd row)) row))))"

definition predict :: "sk \<Rightarrow> afigs \<Rightarrow> real list list \<Rightarrow> error + py_value" where
  "predict K slf X =
     ebind (check_array K X) (\<lambda>X'.
     ebind (sum_trees slf X') (\<lambda>preds.
       if prediction_task slf = ''regression'' then Inr NotImplemented
       else if prediction_task slf = ''classification'' then
         ebind (emap (best_class (case y_levels slf of None \<Rightarrow> [] | Some ls \<Rightarrow> ls)) preds)
           (\<lambda>class_preds. Inr (IntArray class_preds))
       else Inr PyNone))"

definition predict_proba :: "sk \<Rightarrow> afigs \<Rightarrow> real list list \<Rightarrow> error + py_value" where
  "predict_proba K slf X =
     ebind (check_array K X) (\<lambda>X'.
       if prediction_task slf = ''regression'' then Inr NotImplemented
       else ebind (sum_trees slf X') (\<lambda>preds. Inr (Tensor preds)))"

subsection \<open>Instances\<close>

text \<open>\<open>AFIGS()\<close> after \<open>__init__\<close>.\<close>

definition afigs_init :: "int option \<Rightarrow> int option \<Rightarrow> real \<Rightarrow> afigs" where
  "afigs_init mi mr mid =
     \<lparr>max_int = mi, max_rules = mr, min_impurity_decrease = mid,
      prediction_task = ''classification'', y_levels = None, n_rows = None,
      complexity = 0, trees = None, store = []\<rparr>"

subsection \<open>The stump of sklearn, for concrete runs\<close>

text \<open>
  \<open>DecisionTreeRegressor(max_depth=1).fit\<close> is not part of the repository; the theorems
  about \<open>fit\<close> take it as a parameter. For concrete runs the following instance follows
  the tree builder of sklearn 1.x with its defaults (criterion \<open>squared_error\<close>, splitter
  \<open>best\<close>, \<open>min_samples_split = 2\<close>, \<open>min_samples_leaf = 1\<close>): the impurity of a node is
  the weighted variance of the targets averaged over the outputs; the root is a leaf
  when it has fewer than two rows or its impurity is at most the machine epsilon
  \<open>2^-52\<close>, or when no feature has two values further apart than \<open>1e-7\<close>; otherwise the
  split is the first candidate with the greatest proxy improvement, the candidates of a
  feature being the mid-points of neighbouring values in increasing order. sklearn
  visits the features in an order drawn from its random state; the instance takes them
  by index, which is the same thing for one feature. Weights, when given, are taken to
  be positive. No rows, no columns and arrays of different lengths are refused with
  ValueError.
\<close>

definition weighted_sums :: "real list \<Rightarrow> real list list \<Rightarrow> real list" where
  "weighted_sums ws ys = map (\<lambda>col. sum_list (map2 (*) ws col)) (transpose ys)"

definition mse :: "real list \<Rightarrow> real list list \<Rightarrow> real" where
  "mse ws ys =
     (let W = sum_list ws; cols = transpose ys in
      (sum_list (map (\<lambda>col. sum_list (map2 (\<lambda>w v. w * v * v) ws col)) cols) / W
         - sum_list (map (\<lambda>s. (s / W) * (s / W)) (weighted_sums ws ys)))
        / real (length cols))"

definition proxy_improvement :: "real list \<Rightarrow> real list list \<Rightarrow> real list \<Rightarrow> real list list \<Rightarrow> real" where
  "proxy_improvement wl yl wr yr =
     sum_list (map (\<lambda>s. s * s) (weighted_sums wl yl)) / sum_list wl
       + sum_list (map (\<lambda>s. s * s) (weighted_sums wr yr)) / sum_list wr"

definition split_candidates :: "real list \<Rightarrow> real list" where
  "split_candidates col =
     (let vs = sort (remdups col) in
      map (\<lambda>(a, b). (a + b) / 2) (filter (\<lambda>(a, b). a + 1 / 10 ^ 7 < b) (zip vs (tl vs))))"

text \<open>The rows on one side of a threshold, as their weights and their targets.\<close>

definition side ::
  "bool \<Rightarrow> nat \<Rightarrow> real \<Rightarrow> real list list \<Rightarrow> real list list \<Rightarrow> real list
     \<Rightarrow> real list \<times> real list list" where
  "side lft f th Xs ys ws =
     (let rows = filter (\<lambda>(x, r). (x ! f \<le> th) = lft) (zip Xs (zip ws ys))
      in (map (\<lambda>(x, w, y). w) rows, map (\<lambda>(x, w, y). y) rows))"

definition split_score :: "real list list \<Rightarrow> real list list \<Rightarrow> real list \<Rightarrow> nat \<times> real \<Rightarrow> real" where
  "split_score Xs ys ws c =
     (case c of (f, th) \<Rightarrow>
        (case side True f th Xs ys ws of (wl, yl) \<Rightarrow>
           (case side False f th Xs ys ws of (wr, yr) \<Rightarrow> proxy_improvement wl yl wr yr)))"

definition best_split :: "real list list \<Rightarrow> real list list \<Rightarrow> real list \<Rightarrow> (nat \<times> real) option" where
  "best_split Xs ys ws =
     fold (\<lambda>c best.
             case best of
               None \<Rightarrow> Some c
             | Some c' \<Rightarrow>
                 if split_score Xs ys ws c > split_score Xs ys ws c' then Some c else best)
          (concat (map (\<lambda>f. map (Pair f) (split_candidates (map (\<lambda>x. x ! f) Xs)))
                       [0..<length (hd Xs)]))
          None"

definition sklearn_stump_fit ::
  "real list list \<Rightarrow> real list list \<Rightarrow> real list option \<Rightarrow> error + stump_tree" where
  "sklearn_stump_fit Xs ys sw =
     (if Xs = [] \<or> hd Xs = [] \<or>
         (case sw of None \<Rightarrow> False | Some w \<Rightarrow> length w \<noteq> length Xs) \<or>
         length ys \<noteq> length Xs
      then Inl ValueError
      else
        let ws = (case sw of None \<Rightarrow> replicate (length Xs) 1 | Some w \<Rightarrow> w);
            imp = mse ws ys
        in
        case (if length Xs < 2 \<or> imp \<le> 1 / 2 ^ 52 then None else best_split Xs ys ws) of
          None \<Rightarrow>
            Inr \<lparr>st_feature = [-2], st_threshold = [-2], st_impurity = [imp],
                 st_n_node_samples = [length Xs]\<rparr>
        | Some (f, th) \<Rightarrow>
            (case side True f th Xs ys ws of (wl, yl) \<Rightarrow>
               (case side False f th Xs ys ws of (wr, yr) \<Rightarrow>
                  Inr \<lparr>st_feature = [int f, -2, -2], st_threshold = [th, -2, -2],
                       st_impurity = [imp, mse wl yl, mse wr yr],
                       st_n_node_samples = [length Xs, length wl, length wr]\<rparr>)))"

text \<open>\<open>check_array\<close> refuses an array without rows or without columns.\<close>

definition demo_sk :: sk where
  "demo_sk =
     \<lparr>stump_fit = sklearn_stump_fit,
      check_array = (\<lambda>X. if X = [] \<or> hd X = [] then Inl ValueError else Inr X)\<rparr>"

subsection \<open>Invariants of the store\<close>

text \<open>Two masks partition a third one: same length, no row in both, and the rows of
  either are the rows of the parent.\<close>

definition partitions :: "bool list \<Rightarrow> bool list \<Rightarrow> bool list \<Rightarrow> bool" where
  "partitions parent l r \<longleftrightarrow>
     length l = length parent \<and> length r = length parent \<and>
     (\<forall>i < length parent. \<not> (l ! i \<and> r ! i) \<and> ((l ! i \<or> r ! i) \<longleftrightarrow> parent ! i))"

text \<open>The child references \<open>lo\<close> and \<open>ro\<close> of the node at \<open>a\<close> are addresses of the store,
  and when both are present their masks partition the mask of \<open>a\<close>.\<close>

definition children_ok :: "node list \<Rightarrow> nat \<Rightarrow> nat option \<Rightarrow> nat option \<Rightarrow> bool" where
  "children_ok S a lo ro \<longleftrightarrow>
     (\<forall>l. lo = Some l \<longrightarrow> l < length S) \<and> (\<forall>r. ro = Some r \<longrightarrow> r < length S) \<and>
     (\<forall>l r. lo = Some l \<and> ro = Some r \<longrightarrow>
        partitions (idxs (S ! a)) (idxs (S ! l)) (idxs (S ! r)))"

definition masks_ok :: "nat \<Rightarrow> node list \<Rightarrow> bool" where
  "masks_ok m S \<longleftrightarrow>
     (\<forall>a < length S.
        children_ok S a (left_temp (S ! a)) (right_temp (S ! a)) \<and>
        children_ok S a (left (S ! a)) (right (S ! a)) \<and>
        (is_root (S ! a) \<longrightarrow> idxs (S ! a) = replicate m True))"

definition roots_ok :: "node list \<Rightarrow> nat option list option \<Rightarrow> bool" where
  "roots_ok S tso \<longleftrightarrow>
     (\<forall>ts r. tso = Some ts \<longrightarrow> Some r \<in> set ts \<longrightarrow> r < length S \<and> is_root (S ! r))"

definition fit_inv :: "nat \<Rightarrow> fit_state \<Rightarrow> bool" where
  "fit_inv m st \<longleftrightarrow>
     masks_ok m (store (estimator st)) \<and>
     (\<forall>a \<in> set (potential_splits st). a < length (store (estimator st))) \<and>
     roots_ok (store (estimator st)) (trees (estimator st))"

text \<open>The store \<open>S'\<close> extends \<open>S\<close>: the nodes of \<open>S\<close> are still there with their masks and
  root flags.\<close>

definition extends :: "node list \<Rightarrow> node list \<Rightarrow> bool" where
  "extends S S' \<longleftrightarrow>
     length S \<le> length S' \<and>
     (\<forall>c < length S. idxs (S' ! c) = idxs (S ! c) \<and> is_root (S' ! c) = is_root (S ! c))"

text \<open>A node as \<open>_construct_node_with_stump\<close> leaves it: not a root, no committed children.\<close>

definition fresh :: "node \<Rightarrow> bool" where
  "fresh nd \<longleftrightarrow> \<not> is_root nd \<and> left nd = None \<and> right nd = None"

section \<open>Concrete instances used to exercise the definitions\<close>

text \<open>A three-node classification tree (root 0, leaves 1 and 2) on one feature, three
  rows, and collaborators that always propose feature 0 with \<open>tree_.feature[0] = 0\<close>
  and prefer the threshold 0 at the root.\<close>

definition demo_tree :: tree where
  "demo_tree = \<lparr>children_left = [1, -1, -1], children_right = [2, -1, -1],
     tree_feature = [0, -2, -2], tree_threshold = [5, -2, -2],
     tree_value = [[1, 1], [1, 0], [0, 1]]\<rparr>"

definition demo_tree' :: tree where
  "demo_tree' = \<lparr>children_left = [1, -1, -1], children_right = [2, -1, -1],
     tree_feature = [0, -2, -2], tree_threshold = [0, -2, -2],
     tree_value = [[1, 1], [1, 0], [0, 1]]\<rparr>"

definition demo_tao :: tao_tree where
  "demo_tao = \<lparr>tao_prediction_task = ''classification'', n_iters = 20,
     min_node_samples_tao = 3, min_leaf_samples_tao = 2, node_model = ''stump'',
     weight_errors = True\<rparr>"

definition demo_collaborators :: collaborators where
  "demo_collaborators = \<lparr>
     fit_node_model = (\<lambda>cls col tgt sw. Inr (Stump_fitted 1 0)),
     model_score = (\<lambda>t. if tree_threshold t ! 0 = 0 then 1 else 1 / 2)\<rparr>"

definition demo_X :: "real list list" where
  "demo_X = [[0], [1], [2]]"

definition demo_y :: "real list" where
  "demo_y = [0, 1, 1]"

text \<open>What a sweep may change: the child arrays and the sizes of all arrays stay, and so
  does the value of every node that is not a leaf.\<close>

definition frame :: "tree \<Rightarrow> tree \<Rightarrow> bool" where
  "frame t t' \<longleftrightarrow>
     children_left t' = children_left t \<and> children_right t' = children_right t \<and>
     length (tree_feature t') = length (tree_feature t) \<and>
     length (tree_threshold t') = length (tree_threshold t) \<and>
     length (tree_value t') = length (tree_value t) \<and>
     (\<forall>i < length (tree_value t).
        children_left t ! i \<noteq> children_right t ! i \<longrightarrow> tree_value t' ! i = tree_value t ! i)"

definition same_len :: "tree \<Rightarrow> bool" where
  "same_len t \<longleftrightarrow> length (children_left t) = length (tree_value t) \<and>
      length (children_right t) = length (tree_value t)"

text \<open>The estimator that \<open>fit\<close> returns for the rows \<open>[[0], [1]]\<close> with the classes
  \<open>[[0], [1]]\<close>, and the targets of the trees for the two outputs \<open>[[0, 0], [1, 1]]\<close>.\<close>

definition afigs_model :: afigs where
  "afigs_model =
     \<lparr>max_int = Some 1, max_rules = Some 12, min_impurity_decrease = 0,
      prediction_task = ''classification'', y_levels = Some [2],
      n_rows = Some 2, complexity = 1, trees = Some [Some 0],
      store =
        [\<lparr>is_root = True, idxs = [True, True], tree_num = 0,
            feature = Some 0, impurity_reduction = Some (1 / 2),
            node_value = [1 / 2, 1 / 2], threshold = Some (1 / 2),
            left = Some 1, right = Some 2, left_temp = Some 1,
            right_temp = Some 2\<rparr>,
         \<lparr>is_root = False, idxs = [True, False], tree_num = 0,
            feature = Some (- 2), impurity_reduction = None,
            node_value = [1, 0], threshold = Some (- 2), left = None,
            right = None, left_temp = None, right_temp = None\<rparr>,
         \<lparr>is_root = False, idxs = [False, True], tree_num = 0,
            feature = Some (- 2), impurity_reduction = None,
            node_value = [0, 1], threshold = Some (- 2), left = None,
            right = None, left_temp = None, right_temp = None\<rparr>,
         \<lparr>is_root = False, idxs = [True, False], tree_num = 0,
            feature = Some (- 2), impurity_reduction = None,
            node_value = [1, 0], threshold = Some (- 2), left = None,
            right = None, left_temp = None, right_temp = None\<rparr>,
         \<lparr>is_root = False, idxs = [False, True], tree_num = 0,
            feature = Some (- 2), impurity_reduction = None,
            node_value = [0, 1], threshold = Some (- 2), left = None,
            right = None, left_temp = None, right_temp = None\<rparr>]\<rparr>"

definition demo_y_dict :: "(nat list \<times> tensor) list" where
  "demo_y_dict =
     [([0], [[1, 0], [0, 1]]), ([1], [[1, 0], [0, 1]]),
      ([0, 1], [[1, 0, 0, 0], [0, 0, 0, 1]])]"

definition demo_y_onehot :: tensor where
  "demo_y_onehot = [[1, 0, 0, 0], [0, 0, 0, 1]]"

section \<open>Basic facts\<close>

lemma ebind_Inl [simp]: "ebind (Inl e) f = Inl e"
  by (simp add: ebind_def)

lemma ebind_Inr [simp]: "ebind (Inr x) f = f x"
  by (simp add: ebind_def)

lemma ebind_eq_Inr:
  "ebind m f = Inr y \<longleftrightarrow> (\<exists>x. m = Inr x \<and> f x = Inr y)"
  by (cases m) simp_all

lemma raising_Inl [simp]: "raising s (Inl e) = Inl (e, s)"
  by (simp add: raising_def)

lemma raising_Inr [simp]: "raising s (Inr x) = Inr x"
  by (simp add: raising_def)

lemma raising_eq_Inr [simp]: "raising s m = Inr x \<longleftrightarrow> m = Inr x"
  by (cases m) simp_all

lemma raising_in_eq_Inr [simp]: "raising_in g m = Inr x \<longleftrightarrow> m = Inr x"
  by (cases m) (auto simp: raising_in_def)

lemma py_index_less: "py_index n i = Inr k \<Longrightarrow> k < n"
  by (auto simp: py_index_def split: if_splits)

lemma py_get_nth:
  "py_get xs i = Inr v \<Longrightarrow> \<exists>k. py_index (length xs) i = Inr k \<and> v = xs ! k"
  by (auto simp: py_get_def ebind_eq_Inr)

section \<open>tao.py: the accept-or-revert step\<close>

lemma try_update_cases:
  assumes "try_update C t nu node_id bf bt = Inr (t', nu')"
  shows "\<exists>kf kt. kf < length (tree_feature t) \<and> kt < length (tree_threshold t) \<and>
           py_index (length (tree_feature t)) node_id = Inr kf \<and>
           py_index (length (tree_threshold t)) node_id = Inr kt \<and>
           (let cand = t\<lparr>tree_feature := (tree_feature t)[kf := bf],
                          tree_threshold := (tree_threshold t)[kt := bt]\<rparr>
            in if model_score C cand > model_score C t
               then t' = cand \<and> nu' = nu + 1
               else t' = t \<and> nu' = nu)"
proof -
  from assms obtain old_feat old_threshold kf kt where
    of: "py_get (tree_feature t) node_id = Inr old_feat" and
    ot: "py_get (tree_threshold t) node_id = Inr old_threshold" and
    kf: "py_index (length (tree_feature t)) node_id = Inr kf" and
    kt: "py_index (length (tree_threshold t)) node_id = Inr kt"
    by (auto simp: try_update_def ebind_eq_Inr Let_def)
  from of kf have of': "old_feat = tree_feature t ! kf"
    by (auto dest: py_get_nth)
  from ot kt have ot': "old_threshold = tree_threshold t ! kt"
    by (auto dest: py_get_nth)
  have lf: "kf < length (tree_feature t)" and lt: "kt < length (tree_threshold t)"
    using kf kt by (auto dest: py_index_less)
  show ?thesis
    using assms of ot kf kt lf lt
    by (auto simp: try_update_def Let_def of' ot' not_le split: if_splits)
qed

text \<open>
  C4. In an internal-node step the tentative update of one entry of \<open>feature\<close> and one of
  \<open>threshold\<close> is kept exactly when the whole-tree score of the updated tree is strictly
  greater than the score before, and then it is counted; otherwise the tree after the
  step is the tree before it.
\<close>

theorem internal_node_step_keeps_or_restores:
  assumes "internal_node_step C self p X_node y_node node_id l r (t, nu) = Inr (t', nu')"
  shows "\<exists>kf kt bf bt. kf < length (tree_feature t) \<and> kt < length (tree_threshold t) \<and>
           (let cand = t\<lparr>tree_feature := (tree_feature t)[kf := bf],
                          tree_threshold := (tree_threshold t)[kt := bt]\<rparr>
            in if model_score C cand > model_score C t
               then t' = cand \<and> nu' = nu + 1
               else t' = t \<and> nu' = nu)"
proof -
  from assms obtain bf bt where "try_update C t nu node_id bf bt = Inr (t', nu')"
    by (auto simp: internal_node_step_def ebind_eq_Inr Let_def split: option.splits)
  from try_update_cases[OF this] show ?thesis by blast
qed

lemmas demo_defs = demo_collaborators_def demo_tao_def demo_X_def demo_y_def
      demo_tree_def py_get_def py_index_def y_node_absolute_errors_def y_node_target_def
      sample_weight_def new_node_model_def best_threshold_of_def try_update_def Let_def upt_rec
      np_col_def np_mask_def internal_node_step_def tao_node_def

lemma demo_step_accepts:
  "internal_node_step demo_collaborators demo_tao 1 demo_X demo_y 0 1 2 (demo_tree, 0)
     = Inr (demo_tree', 1)"
  by (simp add: demo_defs demo_tree'_def)

lemma demo_step_rejects:
  "internal_node_step demo_collaborators demo_tao 1 demo_X demo_y 0 1 2 (demo_tree', 0)
     = Inr (demo_tree', 0)"
  by (simp add: demo_defs demo_tree'_def)

theorem internal_node_step_keeps_or_restores_witness:
  "internal_node_step demo_collaborators demo_tao 1 demo_X demo_y 0 1 2 (demo_tree, 0)
     = Inr (demo_tree', 1) \<and>
   internal_node_step demo_collaborators demo_tao 1 demo_X demo_y 0 1 2 (demo_tree', 0)
     = Inr (demo_tree', 0) \<and>
   (\<exists>kf kt bf bt. kf < length (tree_feature demo_tree) \<and> kt < length (tree_threshold demo_tree) \<and>
      (let cand = demo_tree\<lparr>tree_feature := (tree_feature demo_tree)[kf := bf],
                     tree_threshold := (tree_threshold demo_tree)[kt := bt]\<rparr>
       in if model_score demo_collaborators cand > model_score demo_collaborators demo_tree
          then demo_tree' = cand \<and> (1::nat) = 0 + 1
          else demo_tree' = demo_tree \<and> (1::nat) = 0))"
  using demo_step_accepts demo_step_rejects
    internal_node_step_keeps_or_restores[OF demo_step_accepts]
  by simp

section \<open>tao.py: the sample weights\<close>

text \<open>
  C5. With \<open>weight_errors\<close> set, the weight of a row is the absolute error of routing it
  right, not the absolute difference of its two errors: for the target 1 with left
  prediction 1/4 and right prediction 1/2 the errors are 3/4 and 1/2, their difference
  is 1/4 and the weight computed is 1/2.
\<close>

theorem sample_weight_is_right_error:
  "sample_weight True [1] (y_node_absolute_errors [1] [1 / 4] [1 / 2]) = [1 / 2] \<and>
   map (\<lambda>(e0, e1). \<bar>e1 - e0\<bar>) (y_node_absolute_errors [1] [1 / 4] [1 / 2]) = [1 / 4]"
  by (simp add: sample_weight_def y_node_absolute_errors_def)

section \<open>tao.py: the topology is fixed\<close>

lemma demo_sweep_1: "tao_iter_cart demo_collaborators demo_tao 1 demo_X demo_y demo_tree = Some (demo_tree', Inr 1)"
  by (simp add: tao_iter_cart_def dfs_paths.simps demo_defs demo_tree'_def)

lemma demo_sweep_2: "tao_iter_cart demo_collaborators demo_tao 1 demo_X demo_y demo_tree' = Some (demo_tree', Inr 0)"
  by (simp add: tao_iter_cart_def dfs_paths.simps demo_defs demo_tree'_def)

lemma tao_sweeps_unfold:
  "0 < k \<Longrightarrow> tao_sweeps C self p X y k t =
     (case tao_iter_cart C self p X y t of
        None \<Rightarrow> None
      | Some (t', Inl e) \<Rightarrow> Some (t', Some e)
      | Some (t', Inr num_updates) \<Rightarrow>
          if num_updates = 0 then Some (t', None)
          else tao_sweeps C self p X y (k - 1) t')"
  by (cases k) (auto split: option.splits sum.splits prod.splits)

lemma demo_fit_sweeps: "fit_sweeps demo_collaborators demo_tao 1 demo_X demo_y demo_tree
   = Some (demo_tree', None)"
proof -
  have n: "nat (n_iters demo_tao) = 20"
    by (simp add: demo_tao_def)
  show ?thesis
    unfolding fit_sweeps_def n by (simp add: tao_sweeps_unfold demo_sweep_1 demo_sweep_2 del: One_nat_def)
qed

lemma try_update_frame:
  assumes "try_update C t nu node_id bf bt = Inr (t', nu')"
  shows "children_left t' = children_left t \<and> children_right t' = children_right t \<and>
         length (tree_feature t') = length (tree_feature t) \<and>
         length (tree_threshold t') = length (tree_threshold t) \<and>
         tree_value t' = tree_value t"
  using assms
  by (auto simp: try_update_def ebind_eq_Inr Let_def split: if_splits)

lemma internal_node_step_frame:
  assumes "internal_node_step C self p X_node y_node node_id l r (t, nu) = Inr (t', nu')"
  shows "children_left t' = children_left t \<and> children_right t' = children_right t \<and>
         length (tree_feature t') = length (tree_feature t) \<and>
         length (tree_threshold t') = length (tree_threshold t) \<and>
         tree_value t' = tree_value t"
proof -
  from assms obtain bf bt where "try_update C t nu node_id bf bt = Inr (t', nu')"
    by (auto simp: internal_node_step_def ebind_eq_Inr Let_def split: option.splits)
  from try_update_frame[OF this] show ?thesis .
qed

lemma frame_refl: "frame t t"
  by (simp add: frame_def)

lemma frame_trans: "frame t t' \<Longrightarrow> frame t' t'' \<Longrightarrow> frame t t''"
  by (auto simp: frame_def)

lemma frame_same_len: "frame t t' \<Longrightarrow> same_len t \<Longrightarrow> same_len t'"
  by (auto simp: frame_def same_len_def)

lemma tao_node_frame:
  assumes "tao_node C self p X y (t, nu) np = Inr (t', nu')" and "same_len t"
  shows "frame t t'"
proof -
  obtain node_id pth where np: "np = (node_id, pth)" by (cases np)
  from assms(1) np obtain X_node y_node l r where
    l: "py_get (children_left t) node_id = Inr l" and
    r: "py_get (children_right t) node_id = Inr r" and
    rest: "(if l = r then
           (if tao_prediction_task self = ''regression''
               \<and> int (length X_node) \<ge> min_leaf_samples_tao self then
              ebind (py_index (length (tree_value t)) node_id) (\<lambda>k.
                Inr (t\<lparr>tree_value := (tree_value t)
                          [k := map (\<lambda>_. np_mean y_node) (tree_value t ! k)]\<rparr>,
                     nu))
            else Inr (t, nu))
         else if int (length X_node) < min_node_samples_tao self then Inr (t, nu)
         else internal_node_step C self p X_node y_node node_id l r (t, nu)) = Inr (t', nu')"
    by (auto simp: tao_node_def ebind_eq_Inr)
  show ?thesis
  proof (cases "l = r")
    case False
    with rest show ?thesis
      by (auto simp: frame_def split: if_splits dest: internal_node_step_frame)
  next
    case True
    show ?thesis
    proof (cases "tao_prediction_task self = ''regression''
               \<and> int (length X_node) \<ge> min_leaf_samples_tao self")
      case False
      with rest True show ?thesis by (auto simp: frame_def)
    next
      case c: True
      with rest True obtain k where k: "py_index (length (tree_value t)) node_id = Inr k"
        and t': "t' = t\<lparr>tree_value := (tree_value t)
                          [k := map (\<lambda>_. np_mean y_node) (tree_value t ! k)]\<rparr>"
        by (auto simp: ebind_eq_Inr)
      from l k assms(2) have "l = children_left t ! k"
        by (auto simp: same_len_def dest!: py_get_nth)
      moreover from r k assms(2) have "r = children_right t ! k"
        by (auto simp: same_len_def dest!: py_get_nth)
      ultimately have "children_left t ! k = children_right t ! k" using True by simp
      then have "\<And>i. children_left t ! i \<noteq> children_right t ! i \<Longrightarrow> k \<noteq> i"
        by auto
      then show ?thesis
        by (simp add: frame_def t')
    qed
  qed
qed

lemma tao_nodes_frame:
  "tao_nodes C self p X y (t, nu) nodes = ((t', nu'), r) \<Longrightarrow> same_len t \<Longrightarrow> frame t t'"
proof (induction nodes arbitrary: t nu)
  case Nil
  then show ?case by (simp add: frame_refl)
next
  case (Cons np nodes)
  show ?case
  proof (cases "tao_node C self p X y (t, nu) np")
    case (Inl e)
    with Cons.prems show ?thesis by (simp add: frame_refl)
  next
    case (Inr st1)
    obtain t1 nu1 where st1: "st1 = (t1, nu1)" by (cases st1)
    from Inr st1 Cons.prems(2) have f1: "frame t t1" by (auto dest: tao_node_frame)
    from Cons.prems(1) Inr st1 have "tao_nodes C self p X y (t1, nu1) nodes = ((t', nu'), r)"
      by simp
    from Cons.IH[OF this frame_same_len[OF f1 Cons.prems(2)]] f1 show ?thesis
      by (blast intro: frame_trans)
  qed
qed

lemma tao_iter_cart_frame:
  "tao_iter_cart C self p X y t = Some (t', r) \<Longrightarrow> same_len t \<Longrightarrow> frame t t'"
  by (auto simp: tao_iter_cart_def frame_refl split: option.splits sum.splits prod.splits
      dest: tao_nodes_frame)

lemma tao_sweeps_frame:
  "tao_sweeps C self p X y k t = Some (t', r) \<Longrightarrow> same_len t \<Longrightarrow> frame t t'"
proof (induction k arbitrary: t)
  case 0
  then show ?case by (simp add: frame_refl)
next
  case (Suc k)
  from Suc.prems(1) obtain t1 r1 where it: "tao_iter_cart C self p X y t = Some (t1, r1)"
    by (auto split: option.splits)
  from tao_iter_cart_frame[OF it Suc.prems(2)] have f1: "frame t t1" .
  show ?case
  proof (cases r1)
    case (Inl e)
    with Suc.prems(1) it f1 show ?thesis by auto
  next
    case (Inr n)
    show ?thesis
    proof (cases "n = 0")
      case True
      with Suc.prems(1) it Inr f1 show ?thesis by auto
    next
      case False
      with Suc.prems(1) it Inr have "tao_sweeps C self p X y k t1 = Some (t', r)" by simp
      from Suc.IH[OF this frame_same_len[OF f1 Suc.prems(2)]] f1 show ?thesis
        by (blast intro: frame_trans)
    qed
  qed
qed

text \<open>
  C9. Whatever the sweeps of \<open>fit\<close> do, and also when one of them raises, the tree they
  leave has the child arrays it started with and arrays of the same sizes, and the value
  of every node that is not a leaf is unchanged: only entries of \<open>feature\<close>, of
  \<open>threshold\<close> and the values of leaves can differ. The arrays are those of one tree, so
  the child arrays and the value array have one entry per node.
\<close>

theorem fit_sweeps_topology_fixed:
  assumes "fit_sweeps C self p X y t = Some (t', r)"
    and "length (children_left t) = length (tree_value t)"
    and "length (children_right t) = length (tree_value t)"
  shows "children_left t' = children_left t \<and> children_right t' = children_right t \<and>
         length (tree_feature t') = length (tree_feature t) \<and>
         length (tree_threshold t') = length (tree_threshold t) \<and>
         length (tree_value t') = length (tree_value t) \<and>
         (\<forall>i < length (tree_value t).
            children_left t ! i \<noteq> children_right t ! i \<longrightarrow>
            tree_value t' ! i = tree_value t ! i)"
proof -
  from assms(2,3) have "same_len t" by (simp add: same_len_def)
  with assms(1) have "frame t t'"
    unfolding fit_sweeps_def by (rule tao_sweeps_frame)
  then show ?thesis by (simp add: frame_def)
qed

theorem fit_sweeps_topology_fixed_witness:
  "fit_sweeps demo_collaborators demo_tao 1 demo_X demo_y demo_tree = Some (demo_tree', None) \<and>
   length (children_left demo_tree) = length (tree_value demo_tree) \<and>
   length (children_right demo_tree) = length (tree_value demo_tree) \<and>
   children_left demo_tree' = children_left demo_tree \<and>
   children_right demo_tree' = children_right demo_tree \<and>
   length (tree_feature demo_tree') = length (tree_feature demo_tree) \<and>
   length (tree_threshold demo_tree') = length (tree_threshold demo_tree) \<and>
   length (tree_value demo_tree') = length (tree_value demo_tree) \<and>
   tree_value demo_tree' ! 0 = tree_value demo_tree ! 0"
proof -
  have a: "length (children_left demo_tree) = length (tree_value demo_tree)"
    and b: "length (children_right demo_tree) = length (tree_value demo_tree)"
    by (simp_all add: demo_tree_def)
  from fit_sweeps_topology_fixed[OF demo_fit_sweeps a b] demo_fit_sweeps a b
  show ?thesis by (simp add: demo_tree_def)
qed

section \<open>anova-figs.py: concrete runs\<close>

declare fit_loop.simps [code]

lemma afigs_fit:
  "fit demo_sk (afigs_init None (Some 12) 0) 1 [[0], [1]] [[0], [1]] None = Some (Inr afigs_model)"
  by code_simp


lemma afigs_fit_codes:
  "(case fit demo_sk (afigs_init None (Some 12) 0) 1 [[0], [1], [2]] [[0], [3 / 2], [- 1]] None of
      Some (Inr mdl) \<Rightarrow>
        y_levels mdl = Some [2] \<and> n_rows mdl = Some 3 \<and> complexity mdl = 1 \<and>
        trees mdl = Some [Some 0] \<and> left (store mdl ! 0) = Some 1 \<and>
        right (store mdl ! 0) = Some 2 \<and> node_value (store mdl ! 2) = [0, 1 / 2]
    | _ \<Rightarrow> False)"
  by code_simp

lemma afigs_fit_no_trees:
  "fit demo_sk (afigs_init (Some 0) (Some 12) 0) 1 [[0]] [[0], [1]] None =
     Some (Inr \<lparr>max_int = Some 0, max_rules = Some 12, min_impurity_decrease = 0,
                prediction_task = ''classification'', y_levels = Some [2],
                n_rows = Some 2, complexity = 0, trees = Some [], store = []\<rparr>)"
  by code_simp

lemma afigs_fit_init_mismatch:
  "fit_init demo_sk (afigs_init None (Some 12) 0) 1 [[0]] [[0], [1]] None =
     Inl (IndexError,
          \<lparr>max_int = Some 1, max_rules = Some 12, min_impurity_decrease = 0,
             prediction_task = ''classification'', y_levels = Some [2],
             n_rows = Some 2, complexity = 0, trees = Some [None], store = []\<rparr>)"
  by code_simp

lemma afigs_fit_init_below:
  "fit_init demo_sk (afigs_init None (Some 12) 0) 1 [[0], [1]] [[0], [- 3]] None =
     Inl (IndexError,
          \<lparr>max_int = None, max_rules = Some 12, min_impurity_decrease = 0,
             prediction_task = ''classification'', y_levels = Some [1],
             n_rows = Some 2, complexity = 0, trees = None, store = []\<rparr>)"
  by code_simp

lemma afigs_levels_below: "y_levels_of [[0], [- 3]] = Inr [1]"
  by code_simp

lemma afigs_fit_init_no_split:
  "(case fit_init demo_sk (afigs_init None (Some 12) 0) 1 [[0], [0]] [[0], [1]] None of
      Inl e \<Rightarrow> False
    | Inr (st, d, h) \<Rightarrow>
        potential_splits st = [0] \<and> length (store (estimator st)) = 1 \<and>
        impurity_reduction (store (estimator st) ! 0) = None \<and>
        left_temp (store (estimator st) ! 0) = None)"
  by code_simp

lemma afigs_fit_no_split:
  "(case fit demo_sk (afigs_init None (Some 12) 0) 1 [[0], [0]] [[0], [1]] None of
      Some (Inl (e, s)) \<Rightarrow> e = TypeError \<and> complexity s = 0 \<and> trees s = Some [None]
    | _ \<Rightarrow> False)"
  by code_simp

lemma afigs_regression_sum:
  "sum_trees (afigs_model\<lparr>prediction_task := ''regression''\<rparr>) [[0], [1]] = Inr [[1, 0], [0, 1]]"
  by code_simp

lemma afigs_predict_one_row:
  "predict demo_sk afigs_model [[5]] = Inr (IntArray [[1], [1]])"
  by code_simp

lemma afigs_predict_proba_two_rows:
  "predict_proba demo_sk afigs_model [[0], [1]] = Inr (Tensor [[1, 0], [0, 1]])"
  by code_simp

lemma afigs_predict_three_rows:
  "predict demo_sk afigs_model [[5], [6], [7]] = Inl ValueError"
  by code_simp

lemma afigs_commit_eval:
  "(case fit_init demo_sk (afigs_init None (Some 12) 0) 1 [[0], [1]] [[0, 0], [1, 1]] None of
      Inl e \<Rightarrow> False
    | Inr (st, d, h) \<Rightarrow>
        d = demo_y_dict \<and> h = demo_y_onehot \<and> n_rows (estimator st) = Some 2 \<and>
        y_levels (estimator st) = Some [2, 2] \<and> last (potential_splits st) = 3 \<and>
        predict_tree [2, 2] (attach_children (store (estimator st)) 3) 3 [[0], [1]] =
          Inr demo_y_onehot \<and>
        (case commit_and_update demo_sk 1 [[0], [1]] [[0, 0], [1, 1]] None d h
                (st\<lparr>potential_splits := butlast (potential_splits st)\<rparr>) 3 of
           Inl e \<Rightarrow> False
         | Inr st' \<Rightarrow>
             trees (estimator st') = Some [None, Some 3, None] \<and>
             y_predictions_per_tree st' =
               [[[0, 0, 0, 0], [0, 0, 0, 0]], demo_y_onehot, [[0, 0, 0, 0], [0, 0, 0, 0]]] \<and>
             y_residuals_per_tree st' =
               [demo_y_onehot, demo_y_onehot, [[0, 0, 0, 0], [0, 0, 0, 0]]]))"
  by code_simp

section \<open>anova-figs.py: the rows of a prediction\<close>

lemma emap_length: "emap f xs = Inr ys \<Longrightarrow> length ys = length xs"
  by (induction xs arbitrary: ys) (auto simp: ebind_eq_Inr)

lemma emap_nth: "emap f xs = Inr ys \<Longrightarrow> i < length xs \<Longrightarrow> f (xs ! i) = Inr (ys ! i)"
proof (induction xs arbitrary: ys i)
  case Nil
  then show ?case by simp
next
  case (Cons x xs)
  then show ?case by (cases i) (auto simp: ebind_eq_Inr)
qed

lemma np_rows_op_length: "np_rows_op f a b = Inr c \<Longrightarrow> length c = length a \<and> length b = length a"
  by (induction f a b arbitrary: c rule: np_rows_op.induct) (auto simp: ebind_eq_Inr)

lemma np_rows_op_nth:
  "np_rows_op f a b = Inr c \<Longrightarrow> i < length a \<Longrightarrow>
     length (b ! i) = length (a ! i) \<and> c ! i = map2 f (a ! i) (b ! i)"
proof (induction f a b arbitrary: c i rule: np_rows_op.induct)
  case (2 f a as b bs)
  then show ?case
    by (cases i) (auto simp: ebind_eq_Inr np_row_op_def split: if_splits)
qed simp_all

lemma np_inplace_length: "np_inplace f a b = Inr c \<Longrightarrow> length c = length a"
  by (auto simp: np_inplace_def split: if_splits dest: np_rows_op_length)

lemma np_zeros_length: "np_zeros m levels = Inr z \<Longrightarrow> length z = m"
  by (auto simp: np_zeros_def split: if_splits)

lemma add_trees_length: "add_trees levels S X ts preds = Inr r \<Longrightarrow> length r = length preds"
  by (induction levels S X ts preds rule: add_trees.induct)
     (auto simp: ebind_eq_Inr dest: np_inplace_length)

lemma sum_trees_length: "sum_trees slf X = Inr r \<Longrightarrow> n_rows slf = Some (length r)"
  by (auto simp: sum_trees_def ebind_eq_Inr split: option.splits
      dest!: add_trees_length np_zeros_length)

text \<open>
  C10. When \<open>predict\<close> or \<open>predict_proba\<close> returns an array, its number of rows is the
  row count \<open>self.n\<close> that \<open>fit\<close> recorded, whatever the number of rows of the argument: the
  result has one row per row of \<open>X\<close> exactly when \<open>X\<close> has \<open>self.n\<close> rows.
\<close>

theorem predict_rows_are_training_rows:
  assumes "n_rows slf = Some m"
  shows "(predict K slf X = Inr (IntArray r) \<longrightarrow> length r = m \<and> (length r = length X \<longleftrightarrow> length X = m)) \<and>
         (predict_proba K slf X = Inr (Tensor t) \<longrightarrow> length t = m \<and> (length t = length X \<longleftrightarrow> length X = m))"
  using assms
  by (auto simp: predict_def predict_proba_def ebind_eq_Inr split: if_splits
      dest!: sum_trees_length emap_length)

theorem predict_rows_are_training_rows_witness:
  "n_rows afigs_model = Some 2 \<and>
   predict demo_sk afigs_model [[5]] = Inr (IntArray [[1], [1]]) \<and>
   length [[1::int], [1]] = 2 \<and> length [[1::int], [1]] \<noteq> length [[5::real]] \<and>
   predict_proba demo_sk afigs_model [[0], [1]] = Inr (Tensor [[1, 0], [0, 1]]) \<and>
   length [[1::real, 0], [0, 1]] = length [[0::real], [1]]"
proof -
  have n: "n_rows afigs_model = Some 2" by (simp add: afigs_model_def)
  from predict_rows_are_training_rows[OF n, of demo_sk "[[5]]" "[[1], [1]]"]
    afigs_predict_one_row
  have "length [[1::int], [1]] = 2" by blast
  with n afigs_predict_one_row afigs_predict_proba_two_rows show ?thesis by simp
qed

text \<open>
  C6. For the regression task neither method raises of its own: \<open>predict_proba\<close> returns
  \<open>NotImplemented\<close> once \<open>check_array\<close> has accepted \<open>X\<close>, and \<open>predict\<close> returns it after the
  trees have been summed, so the only errors are those of \<open>check_array\<close> and of the sum.
\<close>

theorem regression_returns_sentinel:
  assumes "prediction_task slf = ''regression''"
  shows "predict_proba K slf X = ebind (check_array K X) (\<lambda>X'. Inr NotImplemented) \<and>
         predict K slf X =
           ebind (check_array K X) (\<lambda>X'. ebind (sum_trees slf X') (\<lambda>preds. Inr NotImplemented))"
  using assms by (simp add: predict_def predict_proba_def)

text \<open>A fitted estimator whose task is set to regression returns the sentinel from both
  methods.\<close>

theorem regression_predict_does_not_raise:
  "predict_proba demo_sk (afigs_model\<lparr>prediction_task := ''regression''\<rparr>) [[0], [1]] =
     Inr NotImplemented \<and>
   predict demo_sk (afigs_model\<lparr>prediction_task := ''regression''\<rparr>) [[0], [1]] =
     Inr NotImplemented"
  by code_simp

theorem regression_returns_sentinel_witness:
  "prediction_task (afigs_model\<lparr>prediction_task := ''regression''\<rparr>) = ''regression'' \<and>
   sum_trees (afigs_model\<lparr>prediction_task := ''regression''\<rparr>) [[0], [1]] =
     Inr [[1, 0], [0, 1]] \<and>
   predict_proba demo_sk (afigs_model\<lparr>prediction_task := ''regression''\<rparr>) [[0], [1]] =
     Inr NotImplemented \<and>
   predict demo_sk (afigs_model\<lparr>prediction_task := ''regression''\<rparr>) [[0], [1]] =
     Inr NotImplemented"
  using regression_returns_sentinel[of "afigs_model\<lparr>prediction_task := ''regression''\<rparr>"
      demo_sk "[[0], [1]]"] afigs_regression_sum
  by (simp add: demo_sk_def)

section \<open>anova-figs.py: the residuals after a commit\<close>

lemma np_inplace_cell:
  assumes "np_inplace f a b = Inr c" and "length b = length a" and "i < length a"
  shows "length (c ! i) = length (a ! i) \<and>
         (\<forall>j < length (a ! i). c ! i ! j = f (a ! i ! j) (b ! i ! j))"
proof -
  from assms(1,2) have r: "np_rows_op f a b = Inr c" by (simp add: np_inplace_def)
  from np_rows_op_nth[OF r assms(3)] show ?thesis by auto
qed

lemma subtract_others_cell:
  assumes "subtract_others keys t preds us res = Inr r"
    and "\<forall>u \<in> set us. u < length preds \<longrightarrow> length (preds ! u) = length res"
  shows "length r = length res \<and>
         (\<forall>i < length res. length (r ! i) = length (res ! i) \<and>
            (\<forall>j < length (res ! i).
               r ! i ! j = res ! i ! j -
                 sum_list (map (\<lambda>u. preds ! u ! i ! j)
                   (filter (\<lambda>u. u \<noteq> t \<and> set (keys ! t) \<inter> set (keys ! u) \<noteq> {}) us))))"
  using assms
proof (induction us arbitrary: res)
  case Nil
  then show ?case by simp
next
  case (Cons u us)
  show ?case
  proof (cases "u \<noteq> t \<and> set (keys ! t) \<inter> set (keys ! u) \<noteq> {}")
    case False
    with Cons.prems have "subtract_others keys t preds us res = Inr r" by auto
    from Cons.IH[OF this] Cons.prems(2) False show ?thesis by auto
  next
    case True
    with Cons.prems(1) obtain res' where
      u: "u < length preds" and
      sub: "np_inplace (-) res (preds ! u) = Inr res'" and
      rest: "subtract_others keys t preds us res' = Inr r"
      by (auto simp: ebind_eq_Inr dict_get_def split: if_splits)
    from Cons.prems(2) u have lu: "length (preds ! u) = length res" by simp
    from np_inplace_length[OF sub] have l': "length res' = length res" .
    have "\<forall>v \<in> set us. v < length preds \<longrightarrow> length (preds ! v) = length res'"
      using Cons.prems(2) l' by simp
    from Cons.IH[OF rest this] have
      ih: "length r = length res'"
        "\<And>i. i < length res' \<Longrightarrow> length (r ! i) = length (res' ! i)"
        "\<And>i j. i < length res' \<Longrightarrow> j < length (res' ! i) \<Longrightarrow>
            r ! i ! j = res' ! i ! j -
              sum_list (map (\<lambda>u. preds ! u ! i ! j)
                (filter (\<lambda>u. u \<noteq> t \<and> set (keys ! t) \<inter> set (keys ! u) \<noteq> {}) us))"
      by auto
    have cell: "\<And>i. i < length res \<Longrightarrow> length (res' ! i) = length (res ! i) \<and>
         (\<forall>j < length (res ! i). res' ! i ! j = res ! i ! j - preds ! u ! i ! j)"
      using np_inplace_cell[OF sub lu] by simp
    show ?thesis
      using ih l' cell True by (auto simp: algebra_simps)
  qed
qed

lemma predict_tree_length: "predict_tree levels S r X = Inr q \<Longrightarrow> length q = length X"
  by (auto simp: predict_tree_def ebind_eq_Inr dest!: np_rows_op_length np_zeros_length)

lemma residual_for_ignores_disjoint:
  assumes "set (keys ! t) \<inter> set (keys ! u) = {}"
  shows "residual_for keys y_onehot (preds[u := q]) t = residual_for keys y_onehot preds t"
proof -
  have "subtract_others keys t (preds[u := q]) us res = subtract_others keys t preds us res"
    for us res
  proof (induction us arbitrary: res)
    case Nil
    show ?case by simp
  next
    case (Cons v us)
    show ?case
    proof (cases "v \<noteq> t \<and> set (keys ! t) \<inter> set (keys ! v) \<noteq> {}")
      case False
      then show ?thesis using Cons.IH by auto
    next
      case True
      with assms have "v \<noteq> u" by auto
      then have "dict_get (preds[u := q]) v = dict_get preds v"
        by (simp add: dict_get_def)
      moreover have "subtract_others keys t (preds[u := q]) us = subtract_others keys t preds us"
        by (rule ext) (rule Cons.IH)
      ultimately show ?thesis using True by simp
    qed
  qed
  then show ?thesis by (simp add: residual_for_def)
qed

lemma predictions_per_tree_rows:
  assumes "predictions_per_tree levels m S ts X = Inr preds" and "u < length preds"
  shows "length (preds ! u) = length X \<or> length (preds ! u) = m"
proof -
  let ?f = "\<lambda>t. case ts ! t of None \<Rightarrow> np_zeros m levels | Some r \<Rightarrow> predict_tree levels S r X"
  from assms(1) have e: "emap ?f [0..<length ts] = Inr preds"
    by (simp add: predictions_per_tree_def)
  from emap_length[OF e] assms(2) have u: "u < length ts" by simp
  with emap_nth[OF e, of u] have "?f u = Inr (preds ! u)" by simp
  then show ?thesis
    by (cases "ts ! u") (auto dest: np_zeros_length predict_tree_length)
qed

lemma commit_and_updateE:
  assumes "commit_and_update K p X y w y_dict y_onehot st a = Inr st'"
  obtains ts ts1 levels m preds ress S2 new pool2 where
    "trees (estimator st) = Some ts"
    "start_tree (store (estimator st)) ts a = Inr ts1"
    "y_levels (estimator st) = Some levels"
    "n_rows (estimator st) = Some m"
    "predictions_per_tree levels m (attach_children (store (estimator st)) a) ts1 X = Inr preds"
    "update_residuals (map fst y_dict) y_onehot preds = Inr ress"
    "refit K levels p X y w (map fst y_dict) ress (attach_children (store (estimator st)) a)
       (map Some (potential_splits st) @
          [left (attach_children (store (estimator st)) a ! a),
           right (attach_children (store (estimator st)) a ! a)]) [] = Inr (S2, new)"
    "sorted_by_impurity_reduction S2 new = Inr pool2"
    "estimator st' = (estimator st)\<lparr>complexity := complexity (estimator st) + 1,
                                     trees := Some ts1, store := S2\<rparr>"
    "potential_splits st' = pool2"
    "finished st' \<longleftrightarrow> finished st \<or>
       (\<exists>mr. max_rules (estimator st) = Some mr \<and> mr \<le> complexity (estimator st) + 1)"
    "y_predictions_per_tree st' = preds"
    "y_residuals_per_tree st' = ress"
  using assms
  by (cases "trees (estimator st)"; cases "y_levels (estimator st)"; cases "n_rows (estimator st)";
      cases "max_rules (estimator st)")
     (auto simp: commit_and_update_def Let_def ebind_eq_Inr)

lemma commit_and_update_residuals:
  assumes "commit_and_update K p X y w y_dict y_onehot st a = Inr st'"
  shows "(\<forall>u < length (y_predictions_per_tree st').
            length (y_predictions_per_tree st' ! u) = length X \<or>
            n_rows (estimator st) = Some (length (y_predictions_per_tree st' ! u))) \<and>
         update_residuals (map fst y_dict) y_onehot (y_predictions_per_tree st')
           = Inr (y_residuals_per_tree st')"
proof -
  from assms obtain ts1 levels m preds ress S1 where
    m: "n_rows (estimator st) = Some m" and
    pr: "predictions_per_tree levels m S1 ts1 X = Inr preds" and
    u: "update_residuals (map fst y_dict) y_onehot preds = Inr ress" and
    p: "y_predictions_per_tree st' = preds" and
    r: "y_residuals_per_tree st' = ress"
    by (elim commit_and_updateE) simp
  from predictions_per_tree_rows[OF pr] m u p r show ?thesis by auto
qed

lemma residuals_after_commit:
  assumes "commit_and_update K p X y w y_dict y_onehot st a = Inr st'"
    and "n_rows (estimator st) = Some (length y_onehot)"
    and "length X = length y_onehot"
  shows "length (y_residuals_per_tree st') = length y_dict \<and>
         (\<forall>t < length y_dict. \<forall>i < length y_onehot. \<forall>j < length (y_onehot ! i).
            y_residuals_per_tree st' ! t ! i ! j =
              y_onehot ! i ! j -
                sum_list (map (\<lambda>u. y_predictions_per_tree st' ! u ! i ! j)
                  (filter (\<lambda>u. u \<noteq> t \<and> set (fst (y_dict ! t)) \<inter> set (fst (y_dict ! u)) \<noteq> {})
                     [0..<length y_dict]))) \<and>
         (\<forall>t u q. set (fst (y_dict ! t)) \<inter> set (fst (y_dict ! u)) = {} \<longrightarrow>
            t < length y_dict \<longrightarrow> u < length y_dict \<longrightarrow>
            residual_for (map fst y_dict) y_onehot ((y_predictions_per_tree st')[u := q]) t =
            residual_for (map fst y_dict) y_onehot (y_predictions_per_tree st') t)"
proof -
  let ?keys = "map fst y_dict"
  let ?preds = "y_predictions_per_tree st'"
  from commit_and_update_residuals[OF assms(1)] assms(2,3) have
    rows: "\<And>u. u < length ?preds \<Longrightarrow> length (?preds ! u) = length y_onehot" and
    upd: "update_residuals ?keys y_onehot ?preds = Inr (y_residuals_per_tree st')"
    by auto
  from upd have l: "length (y_residuals_per_tree st') = length y_dict"
    by (auto simp: update_residuals_def dest: emap_length)
  have cellwise: "y_residuals_per_tree st' ! t ! i ! j =
              y_onehot ! i ! j -
                sum_list (map (\<lambda>u. ?preds ! u ! i ! j)
                  (filter (\<lambda>u. u \<noteq> t \<and> set (fst (y_dict ! t)) \<inter> set (fst (y_dict ! u)) \<noteq> {})
                     [0..<length y_dict]))"
    if t: "t < length y_dict" and i: "i < length y_onehot" and j: "j < length (y_onehot ! i)"
    for t i j
  proof -
    from upd t have "residual_for ?keys y_onehot ?preds t = Inr (y_residuals_per_tree st' ! t)"
      using emap_nth[of "residual_for ?keys y_onehot ?preds" "[0..<length ?keys]" _ t]
      by (simp add: update_residuals_def)
    then have s: "subtract_others ?keys t ?preds [0..<length y_dict] y_onehot
                    = Inr (y_residuals_per_tree st' ! t)"
      by (simp add: residual_for_def)
    have "\<forall>u \<in> set [0..<length y_dict]. u < length ?preds \<longrightarrow>
            length (?preds ! u) = length y_onehot"
      using rows by simp
    from subtract_others_cell[OF s this] i j have
      "y_residuals_per_tree st' ! t ! i ! j =
         y_onehot ! i ! j -
           sum_list (map (\<lambda>u. ?preds ! u ! i ! j)
             (filter (\<lambda>u. u \<noteq> t \<and> set (?keys ! t) \<inter> set (?keys ! u) \<noteq> {})
                [0..<length y_dict]))"
      by simp
    moreover have "filter (\<lambda>u. u \<noteq> t \<and> set (?keys ! t) \<inter> set (?keys ! u) \<noteq> {}) [0..<length y_dict]
        = filter (\<lambda>u. u \<noteq> t \<and> set (fst (y_dict ! t)) \<inter> set (fst (y_dict ! u)) \<noteq> {}) [0..<length y_dict]"
      using t by (intro filter_cong) auto
    ultimately show ?thesis by simp
  qed
  have indep: "residual_for ?keys y_onehot (?preds[u := q]) t = residual_for ?keys y_onehot ?preds t"
    if "set (fst (y_dict ! t)) \<inter> set (fst (y_dict ! u)) = {}" "t < length y_dict" "u < length y_dict"
    for t u q
    using that by (intro residual_for_ignores_disjoint) simp
  from l cellwise indep show ?thesis by blast
qed

lemma predictions_per_tree_slots:
  assumes "predictions_per_tree levels m S ts X = Inr preds"
  shows "length preds = length ts \<and>
         (\<forall>t < length ts.
            (case ts ! t of
               None \<Rightarrow> np_zeros m levels
             | Some r \<Rightarrow> predict_tree levels S r X) = Inr (preds ! t))"
proof -
  let ?f = "\<lambda>t. case ts ! t of None \<Rightarrow> np_zeros m levels | Some r \<Rightarrow> predict_tree levels S r X"
  from assms have e: "emap ?f [0..<length ts] = Inr preds"
    by (simp add: predictions_per_tree_def)
  from emap_length[OF e] have l: "length preds = length ts" by simp
  have "?f t = Inr (preds ! t)" if "t < length ts" for t
    using emap_nth[OF e, of t] that by simp
  with l show ?thesis by blast
qed

text \<open>
  C1. A commit adds one to \<open>complexity_\<close>, makes a committed root the root of its tree and
  attaches the candidate children of the committed node. In the store so obtained the
  prediction kept for every tree is the prediction of that tree on \<open>X\<close>, zero for a tree
  that has no root yet; and the residual of every tree \<open>t\<close> is, cell by cell, the one-hot
  target minus those predictions of the other trees whose subset of output dimensions
  meets the subset of \<open>t\<close>. Replacing the prediction of a tree whose subset is disjoint
  from that of \<open>t\<close> leaves the residual of \<open>t\<close> as it is.
\<close>

theorem residual_is_onehot_minus_interfering_predictions:
  assumes "commit_and_update K p X y w y_dict y_onehot st a = Inr st'"
    and "n_rows (estimator st) = Some (length y_onehot)"
    and "length X = length y_onehot"
  shows "\<exists>ts0 ts levels.
     trees (estimator st) = Some ts0 \<and>
     start_tree (store (estimator st)) ts0 a = Inr ts \<and>
     trees (estimator st') = Some ts \<and>
     y_levels (estimator st) = Some levels \<and>
     complexity (estimator st') = complexity (estimator st) + 1 \<and>
     length (y_predictions_per_tree st') = length ts \<and>
     (\<forall>t < length ts.
        (case ts ! t of
           None \<Rightarrow> np_zeros (length y_onehot) levels
         | Some r \<Rightarrow> predict_tree levels (attach_children (store (estimator st)) a) r X)
          = Inr (y_predictions_per_tree st' ! t)) \<and>
     length (y_residuals_per_tree st') = length y_dict \<and>
     (\<forall>t < length y_dict. \<forall>i < length y_onehot. \<forall>j < length (y_onehot ! i).
        y_residuals_per_tree st' ! t ! i ! j =
          y_onehot ! i ! j -
            sum_list (map (\<lambda>u. y_predictions_per_tree st' ! u ! i ! j)
              (filter (\<lambda>u. u \<noteq> t \<and> set (fst (y_dict ! t)) \<inter> set (fst (y_dict ! u)) \<noteq> {})
                 [0..<length y_dict]))) \<and>
     (\<forall>t u q. set (fst (y_dict ! t)) \<inter> set (fst (y_dict ! u)) = {} \<longrightarrow>
        t < length y_dict \<longrightarrow> u < length y_dict \<longrightarrow>
        residual_for (map fst y_dict) y_onehot ((y_predictions_per_tree st')[u := q]) t =
        residual_for (map fst y_dict) y_onehot (y_predictions_per_tree st') t)"
proof -
  from assms(1) obtain ts0 ts levels m S2 where
    t0: "trees (estimator st) = Some ts0" and
    st: "start_tree (store (estimator st)) ts0 a = Inr ts" and
    lv: "y_levels (estimator st) = Some levels" and
    m: "n_rows (estimator st) = Some m" and
    pr: "predictions_per_tree levels m (attach_children (store (estimator st)) a) ts X =
           Inr (y_predictions_per_tree st')" and
    es: "estimator st' = (estimator st)\<lparr>complexity := complexity (estimator st) + 1,
                                          trees := Some ts, store := S2\<rparr>"
    by (elim commit_and_updateE) simp
  from m assms(2) have m': "m = length y_onehot" by simp
  from es have "trees (estimator st') = Some ts"
    "complexity (estimator st') = complexity (estimator st) + 1"
    by simp_all
  with t0 st lv predictions_per_tree_slots[OF pr] residuals_after_commit[OF assms] m'
  show ?thesis by blast
qed

text \<open>Two outputs give the trees of the subsets \<open>[0]\<close>, \<open>[1]\<close> and \<open>[0, 1]\<close>; the first commit
  is the root of the second, at address 3, which meets the third and not the first.\<close>

theorem residual_is_onehot_minus_interfering_predictions_witness:
  "\<exists>st st'.
     fit_init demo_sk (afigs_init None (Some 12) 0) 1 [[0], [1]] [[0, 0], [1, 1]] None =
       Inr (st, demo_y_dict, demo_y_onehot) \<and>
     commit_and_update demo_sk 1 [[0], [1]] [[0, 0], [1, 1]] None demo_y_dict demo_y_onehot
       (st\<lparr>potential_splits := butlast (potential_splits st)\<rparr>) 3 = Inr st' \<and>
     trees (estimator st') = Some [None, Some 3, None] \<and>
     predict_tree [2, 2] (attach_children (store (estimator st)) 3) 3 [[0], [1]] =
       Inr (y_predictions_per_tree st' ! 1) \<and>
     y_predictions_per_tree st' ! 1 = demo_y_onehot \<and>
     y_residuals_per_tree st' ! 2 ! 0 ! 0 =
       demo_y_onehot ! 0 ! 0 -
         (y_predictions_per_tree st' ! 0 ! 0 ! 0 + y_predictions_per_tree st' ! 1 ! 0 ! 0) \<and>
     y_residuals_per_tree st' ! 2 ! 0 ! 0 = 0 \<and>
     residual_for (map fst demo_y_dict) demo_y_onehot
       ((y_predictions_per_tree st')[1 := [[5, 5, 5, 5], [5, 5, 5, 5]]]) 0 =
     residual_for (map fst demo_y_dict) demo_y_onehot (y_predictions_per_tree st') 0"
proof -
  let ?init = "fit_init demo_sk (afigs_init None (Some 12) 0) 1 [[0], [1]] [[0, 0], [1, 1]] None"
  obtain st d h where i0: "?init = Inr (st, d, h)"
    using afigs_commit_eval by (cases ?init) auto
  let ?st = "st\<lparr>potential_splits := butlast (potential_splits st)\<rparr>"
  let ?commit = "commit_and_update demo_sk 1 [[0], [1]] [[0, 0], [1, 1]] None demo_y_dict
                   demo_y_onehot ?st 3"
  from afigs_commit_eval have
    d: "d = demo_y_dict" and h: "h = demo_y_onehot" and n: "n_rows (estimator st) = Some 2" and
    lv: "y_levels (estimator st) = Some [2, 2]"
    unfolding i0 by simp_all
  from afigs_commit_eval have
    c0: "case ?commit of Inl e \<Rightarrow> False
         | Inr st' \<Rightarrow>
             trees (estimator st') = Some [None, Some 3, None] \<and>
             y_predictions_per_tree st' =
               [[[0, 0, 0, 0], [0, 0, 0, 0]], demo_y_onehot, [[0, 0, 0, 0], [0, 0, 0, 0]]] \<and>
             y_residuals_per_tree st' =
               [demo_y_onehot, demo_y_onehot, [[0, 0, 0, 0], [0, 0, 0, 0]]]"
    unfolding i0 d h by (simp del: One_nat_def)
  from i0 d h have i: "?init = Inr (st, demo_y_dict, demo_y_onehot)" by simp
  obtain st' where c: "?commit = Inr st'"
    using c0 by (cases ?commit) auto
  from c0 have
    tr: "trees (estimator st') = Some [None, Some 3, None]" and
    p: "y_predictions_per_tree st' =
          [[[0, 0, 0, 0], [0, 0, 0, 0]], demo_y_onehot, [[0, 0, 0, 0], [0, 0, 0, 0]]]" and
    r: "y_residuals_per_tree st' =
          [demo_y_onehot, demo_y_onehot, [[0, 0, 0, 0], [0, 0, 0, 0]]]"
    unfolding c by simp_all
  have n': "n_rows (estimator ?st) = Some (length demo_y_onehot)"
    using n by (simp add: demo_y_onehot_def)
  have l: "length [[0::real], [1]] = length demo_y_onehot" by (simp add: demo_y_onehot_def)
  from residual_is_onehot_minus_interfering_predictions[OF c n' l] tr lv
  obtain ts0 where
    slots: "\<And>t. t < length [None, Some (3::nat), None] \<Longrightarrow>
      (case [None, Some 3, None] ! t of
         None \<Rightarrow> np_zeros (length demo_y_onehot) [2, 2]
       | Some r \<Rightarrow> predict_tree [2, 2] (attach_children (store (estimator ?st)) 3) r [[0], [1]])
        = Inr (y_predictions_per_tree st' ! t)" and
    a: "\<And>t i j. t < length demo_y_dict \<Longrightarrow> i < length demo_y_onehot \<Longrightarrow>
      j < length (demo_y_onehot ! i) \<Longrightarrow>
      y_residuals_per_tree st' ! t ! i ! j =
        demo_y_onehot ! i ! j -
          sum_list (map (\<lambda>u. y_predictions_per_tree st' ! u ! i ! j)
            (filter (\<lambda>u. u \<noteq> t \<and>
                  set (fst (demo_y_dict ! t)) \<inter> set (fst (demo_y_dict ! u)) \<noteq> {})
               [0..<length demo_y_dict]))" and
    b: "\<And>t u q. set (fst (demo_y_dict ! t)) \<inter> set (fst (demo_y_dict ! u)) = {} \<Longrightarrow>
      t < length demo_y_dict \<Longrightarrow> u < length demo_y_dict \<Longrightarrow>
      residual_for (map fst demo_y_dict) demo_y_onehot ((y_predictions_per_tree st')[u := q]) t =
      residual_for (map fst demo_y_dict) demo_y_onehot (y_predictions_per_tree st') t"
    by auto
  from slots[of 1] have
    pt: "predict_tree [2, 2] (attach_children (store (estimator st)) 3) 3 [[0], [1]] =
           Inr (y_predictions_per_tree st' ! 1)"
    by simp
  have len: "length demo_y_dict = 3" by (simp add: demo_y_dict_def)
  have f: "filter (\<lambda>u. u \<noteq> 2 \<and>
               set (fst (demo_y_dict ! 2)) \<inter> set (fst (demo_y_dict ! u)) \<noteq> {}) [0..<3] = [0, 1]"
    by (simp add: demo_y_dict_def upt_rec)
  have "y_residuals_per_tree st' ! 2 ! 0 ! 0 =
          demo_y_onehot ! 0 ! 0 -
            sum_list (map (\<lambda>u. y_predictions_per_tree st' ! u ! 0 ! 0)
              (filter (\<lambda>u. u \<noteq> 2 \<and>
                    set (fst (demo_y_dict ! 2)) \<inter> set (fst (demo_y_dict ! u)) \<noteq> {})
                 [0..<length demo_y_dict]))"
    by (rule a) (simp_all add: demo_y_dict_def demo_y_onehot_def)
  then have cell: "y_residuals_per_tree st' ! 2 ! 0 ! 0 =
          demo_y_onehot ! 0 ! 0 -
            (y_predictions_per_tree st' ! 0 ! 0 ! 0 + y_predictions_per_tree st' ! 1 ! 0 ! 0)"
    unfolding len f by simp
  have dis: "residual_for (map fst demo_y_dict) demo_y_onehot
       ((y_predictions_per_tree st')[1 := [[5, 5, 5, 5], [5, 5, 5, 5]]]) 0 =
     residual_for (map fst demo_y_dict) demo_y_onehot (y_predictions_per_tree st') 0"
    by (rule b) (simp_all add: demo_y_dict_def)
  have "y_predictions_per_tree st' ! 1 = demo_y_onehot"
    "y_residuals_per_tree st' ! 2 ! 0 ! 0 = 0"
    by (simp_all add: p r)
  with i c tr pt cell dis show ?thesis by blast
qed

section \<open>anova-figs.py: the number of committed splits\<close>

lemma fit_iterationE:
  assumes "fit_iteration K p X y w y_dict y_onehot st = Inr st'"
    and "potential_splits st \<noteq> []"
  obtains (stop) ir where
      "impurity_reduction (store (estimator st) ! last (potential_splits st)) = Some ir"
      "ir < min_impurity_decrease (estimator st)"
      "st' = st\<lparr>potential_splits := butlast (potential_splits st), finished := True\<rparr>"
  | (commit) ir where
      "impurity_reduction (store (estimator st) ! last (potential_splits st)) = Some ir"
      "\<not> ir < min_impurity_decrease (estimator st)"
      "commit_and_update K p X y w y_dict y_onehot
         (st\<lparr>potential_splits := butlast (potential_splits st)\<rparr>)
         (last (potential_splits st)) = Inr st'"
  using assms
  by (cases "impurity_reduction (store (estimator st) ! last (potential_splits st))")
     (auto simp: fit_iteration_def Let_def split: if_splits)


lemmas fit_loop_induct = fit_loop.raw_induct[rotated 1, consumes 1, case_names step]


section \<open>anova-figs.py: the masks of the nodes\<close>

lemma np_mask_length: "np_mask A ix = Inr B \<Longrightarrow> length ix = length A"
  by (auto simp: np_mask_def split: if_splits)

lemma np_col_length: "np_col p X f = Inr c \<Longrightarrow> length c = length X"
  by (auto simp: np_col_def ebind_eq_Inr)

lemma partitions_split:
  assumes "length c = length ix"
  shows "partitions ix (map2 (\<lambda>s i. s \<and> i) (map (\<lambda>v. v \<le> th) c) ix)
                       (map2 (\<lambda>s i. \<not> s \<and> i) (map (\<lambda>v. v \<le> (th::real)) c) ix)"
  using assms by (auto simp: partitions_def)

lemma construct_node_with_stump_store:
  assumes "construct_node_with_stump K levels p S X y y_all ix tn w = Inr (S', a)"
  shows "a = length S \<and>
    (\<exists>nd extra. S' = S @ nd # extra \<and> idxs nd = ix \<and> fresh nd \<and> tree_num nd = tn \<and>
       ((left_temp nd = None \<and> right_temp nd = None \<and> impurity_reduction nd = None \<and>
         extra = []) \<or>
        (\<exists>cl cr. extra = [cl, cr] \<and> left_temp nd = Some (length S + 1) \<and>
           right_temp nd = Some (length S + 2) \<and> partitions ix (idxs cl) (idxs cr) \<and>
           fresh cl \<and> fresh cr \<and> left_temp cl = None \<and> right_temp cl = None \<and>
           left_temp cr = None \<and> right_temp cr = None)))"
proof -
  from assms obtain Xs and stump :: stump_tree and v where
    xs: "np_mask X ix = Inr Xs" and
    rest: "(if length (st_feature stump) = 1 then
         ebind (py_get (st_feature stump) 0) (\<lambda>f.
         ebind (py_get (st_threshold stump) 0) (\<lambda>th.
           Inr (S @ [(new_node ix v tn)\<lparr>feature := Some f, threshold := Some th\<rparr>],
                length S)))
       else
         ebind (py_get (st_impurity stump) 0) (\<lambda>i0.
         ebind (py_get (st_impurity stump) 1) (\<lambda>i1.
         ebind (py_get (st_n_node_samples stump) 1) (\<lambda>n1.
         ebind (py_get (st_n_node_samples stump) 0) (\<lambda>n0.
         ebind (py_get (st_impurity stump) 2) (\<lambda>i2.
         ebind (py_get (st_n_node_samples stump) 2) (\<lambda>n2.
         ebind (py_get (st_feature stump) 0) (\<lambda>f.
         ebind (py_get (st_threshold stump) 0) (\<lambda>th.
           let ir = (i0 - i1 * real n1 / real n0 - i2 * real n2 / real n0)
                      * real (length (filter id ix))
           in
           ebind (np_col p X f) (\<lambda>c.
             let idxs_split = map (\<lambda>v. v \<le> th) c;
                 idxs_left = map2 (\<lambda>s i. s \<and> i) idxs_split ix;
                 idxs_right = map2 (\<lambda>s i. \<not> s \<and> i) idxs_split ix
             in
             ebind (compute_node_value levels y_all idxs_left) (\<lambda>value_left.
             ebind (compute_node_value levels y_all idxs_right) (\<lambda>value_right.
               Inr (S @ [(new_node ix v tn)\<lparr>feature := Some f, threshold := Some th,
                            impurity_reduction := Some ir,
                            left_temp := Some (length S + 1),
                            right_temp := Some (length S + 2)\<rparr>,
                         new_node idxs_left value_left tn,
                         new_node idxs_right value_right tn],
                    length S))))))))))))) = Inr (S', a)"
    unfolding construct_node_with_stump_def by (auto simp: ebind_eq_Inr)
  from xs have lx: "length ix = length X" by (rule np_mask_length)
  show ?thesis
  proof (cases "length (st_feature stump) = 1")
    case True
    with rest show ?thesis
      by (auto simp: ebind_eq_Inr new_node_def fresh_def)
  next
    case False
    with rest obtain f th c ir value_left value_right where
      c: "np_col p X f = Inr c" and
      s: "S' = S @ [(new_node ix v tn)\<lparr>feature := Some f, threshold := Some th,
                            impurity_reduction := Some ir,
                            left_temp := Some (length S + 1),
                            right_temp := Some (length S + 2)\<rparr>,
                    new_node (map2 (\<lambda>s i. s \<and> i) (map (\<lambda>v. v \<le> th) c) ix) value_left tn,
                    new_node (map2 (\<lambda>s i. \<not> s \<and> i) (map (\<lambda>v. v \<le> th) c) ix) value_right tn]" and
      a: "a = length S"
      by (auto simp: ebind_eq_Inr Let_def)
    from np_col_length[OF c] lx have "length c = length ix" by simp
    from partitions_split[OF this, of th] s a show ?thesis
      by (auto simp: new_node_def fresh_def)
  qed
qed

lemma extends_refl: "extends S S"
  by (simp add: extends_def)

lemma extends_trans: "extends S S' \<Longrightarrow> extends S' S'' \<Longrightarrow> extends S S''"
  by (auto simp: extends_def)

lemma extends_append: "extends S (S @ news)"
  by (simp add: extends_def nth_append)

lemma extends_update:
  "a < length S \<Longrightarrow> idxs nd = idxs (S ! a) \<Longrightarrow> is_root nd = is_root (S ! a) \<Longrightarrow>
   extends S (S[a := nd])"
  by (auto simp: extends_def nth_list_update)

lemma roots_ok_extends: "roots_ok S ts \<Longrightarrow> extends S S' \<Longrightarrow> roots_ok S' ts"
  by (fastforce simp: roots_ok_def extends_def)

lemma children_ok_same_idxs:
  assumes "length S' = length S" and "\<forall>c < length S. idxs (S' ! c) = idxs (S ! c)"
    and "a < length S"
  shows "children_ok S' a lo ro \<longleftrightarrow> children_ok S a lo ro"
  using assms unfolding children_ok_def by (cases lo; cases ro) auto

lemma children_ok_append:
  assumes "children_ok S a lo ro" and "a < length S"
  shows "children_ok (S @ news) a lo ro"
  using assms unfolding children_ok_def by (cases lo; cases ro) (auto simp: nth_append)

lemma masks_ok_update:
  assumes ok: "masks_ok m S" and a: "a < length S"
    and ix: "idxs nd = idxs (S ! a)"
    and rt: "is_root nd \<longrightarrow> idxs nd = replicate m True"
    and t: "children_ok S a (left_temp nd) (right_temp nd)"
    and c: "children_ok S a (left nd) (right nd)"
  shows "masks_ok m (S[a := nd])"
proof -
  let ?S' = "S[a := nd]"
  have same: "\<forall>c < length S. idxs (?S' ! c) = idxs (S ! c)"
    using ix a by (auto simp: nth_list_update)
  have eq: "children_ok ?S' c lo ro \<longleftrightarrow> children_ok S c lo ro" if "c < length S" for c lo ro
    using children_ok_same_idxs[OF _ same that] by simp
  show ?thesis
    unfolding masks_ok_def
  proof (intro allI impI)
    fix c assume "c < length ?S'"
    then have c': "c < length S" by simp
    show "children_ok ?S' c (left_temp (?S' ! c)) (right_temp (?S' ! c)) \<and>
          children_ok ?S' c (left (?S' ! c)) (right (?S' ! c)) \<and>
          (is_root (?S' ! c) \<longrightarrow> idxs (?S' ! c) = replicate m True)"
    proof (cases "c = a")
      case True
      with a t c rt show ?thesis by (simp add: eq)
    next
      case False
      with ok c' show ?thesis by (simp add: eq masks_ok_def)
    qed
  qed
qed

lemma masks_ok_construct:
  assumes c: "construct_node_with_stump K levels p S X y y_all ix tn w = Inr (S', a)"
    and ok: "masks_ok m S"
  shows "masks_ok m S' \<and> extends S S' \<and> a = length S \<and> a < length S' \<and>
         idxs (S' ! a) = ix \<and> \<not> is_root (S' ! a) \<and>
         children_ok S' a (left_temp (S' ! a)) (right_temp (S' ! a))"
proof -
  from construct_node_with_stump_store[OF c] obtain nd extra where
    a: "a = length S" and S': "S' = S @ nd # extra" and ix: "idxs nd = ix" and
    fr: "fresh nd" and
    shape: "(left_temp nd = None \<and> right_temp nd = None \<and> extra = []) \<or>
        (\<exists>cl cr. extra = [cl, cr] \<and> left_temp nd = Some (length S + 1) \<and>
           right_temp nd = Some (length S + 2) \<and> partitions ix (idxs cl) (idxs cr) \<and>
           fresh cl \<and> fresh cr \<and> left_temp cl = None \<and> right_temp cl = None \<and>
           left_temp cr = None \<and> right_temp cr = None)"
    by auto
  have old: "children_ok S' c (left_temp (S' ! c)) (right_temp (S' ! c)) \<and>
             children_ok S' c (left (S' ! c)) (right (S' ! c)) \<and>
             (is_root (S' ! c) \<longrightarrow> idxs (S' ! c) = replicate m True)"
    if "c < length S" for c
    using that ok children_ok_append[of S c _ _ "nd # extra"]
    by (simp add: S' masks_ok_def nth_append)
  have none: "children_ok T c None None" for T c
    by (simp add: children_ok_def)
  from shape show ?thesis
  proof
    assume leaf: "left_temp nd = None \<and> right_temp nd = None \<and> extra = []"
    have "masks_ok m S'"
      unfolding masks_ok_def
    proof (intro allI impI)
      fix c assume "c < length S'"
      then consider "c < length S" | "c = length S" using leaf S' by force
      then show "children_ok S' c (left_temp (S' ! c)) (right_temp (S' ! c)) \<and>
             children_ok S' c (left (S' ! c)) (right (S' ! c)) \<and>
             (is_root (S' ! c) \<longrightarrow> idxs (S' ! c) = replicate m True)"
      proof cases
        case 1
        then show ?thesis by (rule old)
      next
        case 2
        with leaf fr show ?thesis by (simp add: S' fresh_def none)
      qed
    qed
    with a S' ix fr leaf show ?thesis
      by (simp add: extends_append fresh_def none)
  next
    assume "\<exists>cl cr. extra = [cl, cr] \<and> left_temp nd = Some (length S + 1) \<and>
           right_temp nd = Some (length S + 2) \<and> partitions ix (idxs cl) (idxs cr) \<and>
           fresh cl \<and> fresh cr \<and> left_temp cl = None \<and> right_temp cl = None \<and>
           left_temp cr = None \<and> right_temp cr = None"
    then obtain cl cr where ex: "extra = [cl, cr]" and
      lt: "left_temp nd = Some (length S + 1)" and rt: "right_temp nd = Some (length S + 2)" and
      pt: "partitions ix (idxs cl) (idxs cr)" and
      fcl: "fresh cl" and fcr: "fresh cr" and
      tcl: "left_temp cl = None" "right_temp cl = None" and
      tcr: "left_temp cr = None" "right_temp cr = None"
      by blast
    have S3: "S' = S @ [nd, cl, cr]" using S' ex by simp
    have n0: "S' ! length S = nd" and n1: "S' ! Suc (length S) = cl"
      and n2: "S' ! Suc (Suc (length S)) = cr"
      by (simp_all add: S3 nth_append)
    have len: "length S' = length S + 3" by (simp add: S3)
    have cnd: "children_ok S' (length S) (left_temp nd) (right_temp nd)"
      using pt ix by (simp add: children_ok_def lt rt len n0 n1 n2)
    have "masks_ok m S'"
      unfolding masks_ok_def
    proof (intro allI impI)
      fix c assume "c < length S'"
      then consider "c < length S" | "c = length S" | "c = length S + 1" | "c = length S + 2"
        using len by force
      then show "children_ok S' c (left_temp (S' ! c)) (right_temp (S' ! c)) \<and>
             children_ok S' c (left (S' ! c)) (right (S' ! c)) \<and>
             (is_root (S' ! c) \<longrightarrow> idxs (S' ! c) = replicate m True)"
      proof cases
        case 1
        then show ?thesis by (rule old)
      next
        case 2
        with fr cnd show ?thesis by (simp add: n0 fresh_def none)
      next
        case 3
        with fcl tcl show ?thesis by (simp add: n1 fresh_def none)
      next
        case 4
        with fcr tcr show ?thesis by (simp add: n2 fresh_def none)
      qed
    qed
    with a ix fr cnd len show ?thesis
      by (simp add: S3 extends_append fresh_def n0[unfolded S3])
  qed
qed

lemma masks_ok_refit:
  assumes "refit K levels p X y w keys ress S pool new = Inr (S', new')"
    and "masks_ok m S"
    and "\<forall>a. Some a \<in> set pool \<longrightarrow> a < length S"
    and "\<forall>a \<in> set new. a < length S"
  shows "masks_ok m S' \<and> extends S S' \<and> (\<forall>a \<in> set new'. a < length S')"
  using assms
proof (induction pool arbitrary: S new)
  case Nil
  then show ?case by (simp add: extends_refl)
next
  case (Cons ps pool)
  from Cons.prems(1) obtain a where ps: "ps = Some a"
    by (cases ps) auto
  with Cons.prems(3) have a: "a < length S" by simp
  from Cons.prems(1) ps obtain tree_id res S1 b where
    c: "construct_node_with_stump K levels p S X (flatten_y levels res tree_id) y
          (idxs (S ! a)) (tree_num (S ! a)) w = Inr (S1, b)" and
    rest: "refit K levels p X y w keys ress
             (S1[a := (S1 ! a)\<lparr>feature := feature (S1 ! b),
                                 threshold := threshold (S1 ! b),
                                 impurity_reduction := impurity_reduction (S1 ! b),
                                 left_temp := left_temp (S1 ! b),
                                 right_temp := right_temp (S1 ! b)\<rparr>]) pool
             (if impurity_reduction
                   (S1[a := (S1 ! a)\<lparr>feature := feature (S1 ! b),
                                 threshold := threshold (S1 ! b),
                                 impurity_reduction := impurity_reduction (S1 ! b),
                                 left_temp := left_temp (S1 ! b),
                                 right_temp := right_temp (S1 ! b)\<rparr>] ! a) \<noteq> None
              then new @ [a] else new) = Inr (S', new')"
    by (auto simp: ebind_eq_Inr Let_def)
  let ?nd = "(S1 ! a)\<lparr>feature := feature (S1 ! b),
                                 threshold := threshold (S1 ! b),
                                 impurity_reduction := impurity_reduction (S1 ! b),
                                 left_temp := left_temp (S1 ! b),
                                 right_temp := right_temp (S1 ! b)\<rparr>"
  let ?S2 = "S1[a := ?nd]"
  from masks_ok_construct[OF c Cons.prems(2)] have
    ok1: "masks_ok m S1" and ext1: "extends S S1" and b: "b = length S" "b < length S1" and
    ixb: "idxs (S1 ! b) = idxs (S ! a)" and
    cb: "children_ok S1 b (left_temp (S1 ! b)) (right_temp (S1 ! b))"
    by auto
  from ext1 a have a1: "a < length S1" and ixa: "idxs (S1 ! a) = idxs (S ! a)"
    by (auto simp: extends_def)
  have ca: "children_ok S1 a (left_temp (S1 ! b)) (right_temp (S1 ! b))"
    using cb ixa ixb unfolding children_ok_def by simp
  have ok2: "masks_ok m ?S2"
  proof (rule masks_ok_update[OF ok1 a1])
    show "idxs ?nd = idxs (S1 ! a)" by simp
    show "is_root ?nd \<longrightarrow> idxs ?nd = replicate m True"
      using ok1 a1 by (simp add: masks_ok_def)
    show "children_ok S1 a (left_temp ?nd) (right_temp ?nd)" using ca by simp
    show "children_ok S1 a (left ?nd) (right ?nd)"
      using ok1 a1 by (simp add: masks_ok_def)
  qed
  have ext2: "extends S ?S2"
    using ext1 extends_update[OF a1, of ?nd] by (auto intro: extends_trans)
  have len: "length S \<le> length ?S2" using ext2 by (simp add: extends_def)
  have pool2: "\<forall>a. Some a \<in> set pool \<longrightarrow> a < length ?S2"
    using Cons.prems(3) len by fastforce
  have new2: "\<forall>x \<in> set (if impurity_reduction (?S2 ! a) \<noteq> None then new @ [a] else new).
                x < length ?S2"
    using Cons.prems(4) len a by (auto split: if_splits)
  from Cons.IH[OF rest ok2 pool2 new2] ext2 show ?case
    by (auto intro: extends_trans)
qed

lemma sorted_by_impurity_reduction_set:
  "sorted_by_impurity_reduction S pool = Inr pool' \<Longrightarrow> set pool' = set pool"
  by (auto simp: sorted_by_impurity_reduction_def split: if_splits)

lemma masks_ok_attach_children:
  assumes "masks_ok m S" and "a < length S"
  shows "masks_ok m (attach_children S a)"
  unfolding attach_children_def
  using assms by (intro masks_ok_update) (auto simp: masks_ok_def)

lemma extends_attach_children: "a < length S \<Longrightarrow> extends S (attach_children S a)"
  unfolding attach_children_def by (intro extends_update) auto

lemma roots_ok_start_tree:
  assumes "start_tree S ts a = Inr ts1" and "roots_ok S (Some ts)" and "a < length S"
  shows "roots_ok S (Some ts1)"
proof (cases "is_root (S ! a)")
  case False
  with assms show ?thesis by (simp add: start_tree_def)
next
  case True
  with assms(1) obtain k where "ts1 = ts[k := Some a]"
    by (auto simp: start_tree_def ebind_eq_Inr)
  then have "set ts1 \<subseteq> insert (Some a) (set ts)" by (simp add: set_update_subset_insert)
  with assms(2,3) True show ?thesis
    by (auto simp: roots_ok_def)
qed

lemma fit_inv_commit_and_update:
  assumes c: "commit_and_update K p X y w y_dict y_onehot st a = Inr st'"
    and inv: "fit_inv m st" and a: "a < length (store (estimator st))"
  shows "fit_inv m st'"
  using c
proof (rule commit_and_updateE)
  fix ts ts1 levels m' preds ress S2 new pool2
  let ?S = "store (estimator st)"
  let ?S1 = "attach_children ?S a"
  assume ts: "trees (estimator st) = Some ts"
    and st: "start_tree ?S ts a = Inr ts1"
    and rf: "refit K levels p X y w (map fst y_dict) ress ?S1
       (map Some (potential_splits st) @ [left (?S1 ! a), right (?S1 ! a)]) [] = Inr (S2, new)"
    and so: "sorted_by_impurity_reduction S2 new = Inr pool2"
    and est: "estimator st' = (estimator st)\<lparr>complexity := complexity (estimator st) + 1,
                                     trees := Some ts1, store := S2\<rparr>"
    and pool: "potential_splits st' = pool2"
  from inv have ok: "masks_ok m ?S" and pl: "\<forall>x \<in> set (potential_splits st). x < length ?S"
    and ro: "roots_ok ?S (trees (estimator st))"
    by (auto simp: fit_inv_def)
  have ok1: "masks_ok m ?S1" using ok a by (rule masks_ok_attach_children)
  have ext1: "extends ?S ?S1" using a by (rule extends_attach_children)
  have len1: "length ?S1 = length ?S" by (simp add: attach_children_def)
  have "children_ok ?S1 a (left (?S1 ! a)) (right (?S1 ! a))"
    using ok1 a len1 by (simp add: masks_ok_def)
  then have ch: "\<forall>l. left (?S1 ! a) = Some l \<longrightarrow> l < length ?S1"
    "\<forall>r. right (?S1 ! a) = Some r \<longrightarrow> r < length ?S1"
    by (auto simp: children_ok_def)
  have pool1: "\<forall>x. Some x \<in> set (map Some (potential_splits st) @ [left (?S1 ! a), right (?S1 ! a)])
                  \<longrightarrow> x < length ?S1"
    using pl ch len1 by auto
  from masks_ok_refit[OF rf ok1 pool1] have
    ok2: "masks_ok m S2" and ext2: "extends ?S1 S2" and new: "\<forall>x \<in> set new. x < length S2"
    by auto
  from roots_ok_start_tree[OF st] ro ts a have "roots_ok ?S (Some ts1)" by simp
  then have r2: "roots_ok S2 (Some ts1)"
    by (rule roots_ok_extends) (rule extends_trans[OF ext1 ext2])
  have s2: "set pool2 = set new" using so by (rule sorted_by_impurity_reduction_set)
  have e1: "store (estimator st') = S2" and e2: "trees (estimator st') = Some ts1"
    by (simp_all add: est)
  show "fit_inv m st'"
    unfolding fit_inv_def e1 e2 pool s2 using ok2 new r2 by simp
qed

lemma fit_inv_fit_iteration:
  assumes it: "fit_iteration K p X y w y_dict y_onehot st = Inr st'"
    and ne: "potential_splits st \<noteq> []" and inv: "fit_inv m st"
  shows "fit_inv m st'"
  using it ne
proof (cases rule: fit_iterationE)
  case (stop ir)
  with inv show ?thesis
    by (auto simp: fit_inv_def dest: in_set_butlastD)
next
  case (commit ir)
  let ?st1 = "st\<lparr>potential_splits := butlast (potential_splits st)\<rparr>"
  from inv have "fit_inv m ?st1"
    by (auto simp: fit_inv_def dest: in_set_butlastD)
  moreover from inv ne have "last (potential_splits st) < length (store (estimator ?st1))"
    by (simp add: fit_inv_def)
  ultimately show ?thesis
    using fit_inv_commit_and_update[OF commit(3)] by simp
qed

lemma fit_inv_fit_loop:
  "fit_loop K p X y w y_dict y_onehot st = Some r \<Longrightarrow> fit_inv m st \<Longrightarrow> r = Inr st' \<Longrightarrow>
   fit_inv m st'"
proof (induction rule: fit_loop_induct)
  case (step fit_loop K p X y w y_dict y_onehot st r)
  note body = step.hyps and inv = step.prems(1) and r = step.prems(2)
  show ?case
  proof (cases "potential_splits st \<noteq> [] \<and> \<not> finished st")
    case False
    with body r have "st' = st" by auto
    with inv show ?thesis by simp
  next
    case True
    with body obtain st1 where it: "fit_iteration K p X y w y_dict y_onehot st = Inr st1"
      and rec: "fit_loop K p X y w y_dict y_onehot st1 = Some r"
      using r by (auto split: sum.splits)
    from fit_inv_fit_iteration[OF it _ inv] True have "fit_inv m st1" by simp
    from step.IH[OF rec this r] show ?thesis .
  qed
qed

lemma init_y_fields:
  assumes "init_y s y = Inr (s', y_dict, y_onehot)"
  shows "n_rows s' = Some (length y) \<and> max_rules s' = max_rules s \<and>
         complexity s' = complexity s \<and> (\<exists>levels. y_levels s' = Some levels)"
  using assms by (auto simp: init_y_def ebind_eq_Inr Let_def)

lemma masks_ok_init_roots:
  assumes "init_roots K levels p X y ix w S tn y_dict pool = Inr (S', pool')"
    and "masks_ok m S"
    and "\<forall>a \<in> set pool. a < length S \<and> idxs (S ! a) = ix"
  shows "masks_ok m S' \<and> (\<forall>a \<in> set pool'. a < length S' \<and> idxs (S' ! a) = ix)"
  using assms
proof (induction y_dict arbitrary: S tn pool)
  case Nil
  then show ?case by simp
next
  case (Cons e y_dict)
  obtain tree_id y_resp where e: "e = (tree_id, y_resp)" by (cases e)
  from Cons.prems(1) e obtain S1 a where
    c: "construct_node_with_stump K levels p S X y_resp y ix tn w = Inr (S1, a)" and
    rest: "init_roots K levels p X y ix w S1 (Suc tn) y_dict (pool @ [a]) = Inr (S', pool')"
    by (auto simp: ebind_eq_Inr)
  from masks_ok_construct[OF c Cons.prems(2)] have
    ok1: "masks_ok m S1" and ext: "extends S S1" and a: "a < length S1" "idxs (S1 ! a) = ix"
    by auto
  have "\<forall>b \<in> set (pool @ [a]). b < length S1 \<and> idxs (S1 ! b) = ix"
    using Cons.prems(3) ext a by (auto simp: extends_def)
  from Cons.IH[OF rest ok1 this] show ?case .
qed

lemma masks_ok_set_roots:
  assumes "masks_ok m S" and "\<forall>a \<in> set pool. a < length S \<and> idxs (S ! a) = replicate m True"
  shows "masks_ok m (fold (\<lambda>a S. S[a := (S ! a)\<lparr>is_root := True\<rparr>]) pool S) \<and>
         length (fold (\<lambda>a S. S[a := (S ! a)\<lparr>is_root := True\<rparr>]) pool S) = length S"
  using assms
proof (induction pool arbitrary: S)
  case Nil
  then show ?case by simp
next
  case (Cons a pool)
  let ?S1 = "S[a := (S ! a)\<lparr>is_root := True\<rparr>]"
  from Cons.prems have a: "a < length S" and ia: "idxs (S ! a) = replicate m True" by auto
  have ok1: "masks_ok m ?S1"
    using Cons.prems(1) a ia by (intro masks_ok_update) (auto simp: masks_ok_def)
  have "\<forall>b \<in> set pool. b < length ?S1 \<and> idxs (?S1 ! b) = replicate m True"
    using Cons.prems(2) by (auto simp: nth_list_update)
  from Cons.IH[OF ok1 this] show ?case by simp
qed

lemma masks_ok_Nil: "masks_ok m []"
  by (simp add: masks_ok_def)

lemma fit_initE:
  assumes "fit_init K slf p X y w = Inr (st, y_dict, y_onehot)"
  obtains self1 levels S pool pool' where
    "init_y (slf\<lparr>complexity := 0\<rparr>) y = Inr (self1, y_dict, y_onehot)"
    "y_levels self1 = Some levels"
    "init_roots K levels p X y (replicate (length y) True) w [] 0 y_dict [] = Inr (S, pool)"
    "sorted_by_impurity_reduction
       (fold (\<lambda>a S. S[a := (S ! a)\<lparr>is_root := True\<rparr>]) pool S) pool = Inr pool'"
    "st = \<lparr>estimator = self1\<lparr>trees := Some (replicate (length y_dict) None),
                              store := fold (\<lambda>a S. S[a := (S ! a)\<lparr>is_root := True\<rparr>]) pool S\<rparr>,
           potential_splits = pool', finished = False, y_predictions_per_tree = [],
           y_residuals_per_tree = []\<rparr>"
proof -
  from assms obtain r where
    iy: "init_y (slf\<lparr>complexity := 0\<rparr>) y = Inr r" and
    body: "(case r of (self1, y_dict, y_onehot) \<Rightarrow>
       let self2 = self1\<lparr>trees := Some (replicate (length y_dict) None), store := []\<rparr> in
       case y_levels self2 of
         None \<Rightarrow> Inl (TypeError, self2)
       | Some levels \<Rightarrow>
          (case n_rows self2 of
             None \<Rightarrow> Inl (TypeError, self2)
           | Some m \<Rightarrow>
              ebind (raising self2
                       (init_roots K levels p X y (replicate m True) w (store self2) 0 y_dict []))
                (\<lambda>(S, pool).
                  let S' = fold (\<lambda>a S. S[a := (S ! a)\<lparr>is_root := True\<rparr>]) pool S in
                  ebind (raising self2 (sorted_by_impurity_reduction S' pool)) (\<lambda>pool'.
                    Inr (\<lparr>estimator = self2\<lparr>store := S'\<rparr>, potential_splits = pool',
                          finished = False, y_predictions_per_tree = [],
                          y_residuals_per_tree = []\<rparr>,
                         y_dict, y_onehot))))) = Inr (st, y_dict, y_onehot)"
    unfolding fit_init_def ebind_eq_Inr by blast
  obtain self1 yd yo where r: "r = (self1, yd, yo)" by (cases r)
  from init_y_fields[OF iy[unfolded r]] obtain levels where
    n: "n_rows self1 = Some (length y)" and lv: "y_levels self1 = Some levels"
    by auto
  from body r n lv obtain S pool pool' where
    "init_roots K levels p X y (replicate (length y) True) w [] 0 yd [] = Inr (S, pool)"
    "sorted_by_impurity_reduction
       (fold (\<lambda>a S. S[a := (S ! a)\<lparr>is_root := True\<rparr>]) pool S) pool = Inr pool'"
    "st = \<lparr>estimator = self1\<lparr>trees := Some (replicate (length yd) None),
                              store := fold (\<lambda>a S. S[a := (S ! a)\<lparr>is_root := True\<rparr>]) pool S\<rparr>,
           potential_splits = pool', finished = False, y_predictions_per_tree = [],
           y_residuals_per_tree = []\<rparr>"
    "yd = y_dict" "yo = y_onehot"
    by (auto simp: ebind_eq_Inr Let_def)
  with iy r lv show ?thesis by (intro that) auto
qed

lemma fit_init_inv:
  assumes "fit_init K slf p X y w = Inr (st, y_dict, y_onehot)"
  shows "fit_inv (length y) st \<and> max_rules (estimator st) = max_rules slf \<and>
         complexity (estimator st) = 0 \<and> \<not> finished st"
  using assms
proof (rule fit_initE)
  fix self1 levels and S :: "node list" and pool pool'
  let ?S' = "fold (\<lambda>a S. S[a := (S ! a)\<lparr>is_root := True\<rparr>]) pool S"
  assume iy: "init_y (slf\<lparr>complexity := 0\<rparr>) y = Inr (self1, y_dict, y_onehot)"
    and ir: "init_roots K levels p X y (replicate (length y) True) w [] 0 y_dict [] = Inr (S, pool)"
    and so: "sorted_by_impurity_reduction ?S' pool = Inr pool'"
    and st: "st = \<lparr>estimator = self1\<lparr>trees := Some (replicate (length y_dict) None),
                              store := ?S'\<rparr>,
           potential_splits = pool', finished = False, y_predictions_per_tree = [],
           y_residuals_per_tree = []\<rparr>"
  from init_y_fields[OF iy] have mr: "max_rules self1 = max_rules slf" and
    cx: "complexity self1 = 0"
    by auto
  from masks_ok_init_roots[OF ir masks_ok_Nil] have
    ok: "masks_ok (length y) S" and
    pl: "\<forall>a \<in> set pool. a < length S \<and> idxs (S ! a) = replicate (length y) True"
    by auto
  from masks_ok_set_roots[OF ok pl] have ok': "masks_ok (length y) ?S'" and len: "length ?S' = length S"
    by auto
  have sp: "set pool' = set pool" using so by (rule sorted_by_impurity_reduction_set)
  have ro: "roots_ok ?S' (Some (replicate (length y_dict) None))"
    by (auto simp: roots_ok_def)
  show ?thesis
    using ok' pl len sp ro mr cx by (simp add: st fit_inv_def)
qed

lemma fit_result:
  assumes "fit K slf p X y w = Some (Inr mdl)"
  obtains st y_dict y_onehot st' where
    "fit_init K slf p X y w = Inr (st, y_dict, y_onehot)"
    "fit_loop K p X y w y_dict y_onehot st = Some (Inr st')"
    "mdl = estimator st'"
  using assms by (auto simp: fit_def split: sum.splits option.splits)

text \<open>
  C2. In the store that \<open>fit\<close> returns, the masks of the candidate children of a node, and
  those of its committed children, are disjoint and cover exactly the rows of the mask of
  the node; every root has the mask of all rows; and every entry of \<open>trees_\<close> is a root of
  the store.
\<close>

theorem fit_masks_partition:
  assumes "fit K slf p X y w = Some (Inr mdl)"
  shows "(\<forall>a < length (store mdl).
            (\<forall>l r. left_temp (store mdl ! a) = Some l \<and> right_temp (store mdl ! a) = Some r \<longrightarrow>
               partitions (idxs (store mdl ! a)) (idxs (store mdl ! l)) (idxs (store mdl ! r))) \<and>
            (\<forall>l r. left (store mdl ! a) = Some l \<and> right (store mdl ! a) = Some r \<longrightarrow>
               partitions (idxs (store mdl ! a)) (idxs (store mdl ! l)) (idxs (store mdl ! r))) \<and>
            (is_root (store mdl ! a) \<longrightarrow> idxs (store mdl ! a) = replicate (length y) True)) \<and>
         (\<forall>ts r. trees mdl = Some ts \<longrightarrow> Some r \<in> set ts \<longrightarrow>
            r < length (store mdl) \<and> is_root (store mdl ! r))"
proof -
  from assms obtain st y_dict y_onehot st' where
    i: "fit_init K slf p X y w = Inr (st, y_dict, y_onehot)" and
    l: "fit_loop K p X y w y_dict y_onehot st = Some (Inr st')" and
    m: "mdl = estimator st'"
    by (rule fit_result)
  from fit_init_inv[OF i] have "fit_inv (length y) st" by simp
  from fit_inv_fit_loop[OF l this refl] have "fit_inv (length y) st'" .
  then show ?thesis
    unfolding fit_inv_def masks_ok_def children_ok_def roots_ok_def m by blast
qed

theorem fit_masks_partition_witness:
  "fit demo_sk (afigs_init None (Some 12) 0) 1 [[0], [1]] [[0], [1]] None =
     Some (Inr afigs_model) \<and>
   left (store afigs_model ! 0) = Some 1 \<and> right (store afigs_model ! 0) = Some 2 \<and>
   partitions (idxs (store afigs_model ! 0)) (idxs (store afigs_model ! 1))
     (idxs (store afigs_model ! 2)) \<and>
   left_temp (store afigs_model ! 0) = Some 1 \<and> right_temp (store afigs_model ! 0) = Some 2 \<and>
   trees afigs_model = Some [Some 0] \<and> is_root (store afigs_model ! 0) \<and>
   idxs (store afigs_model ! 0) = replicate (length [[0::real], [1]]) True"
proof -
  note t = fit_masks_partition[OF afigs_fit]
  have s: "0 < length (store afigs_model)"
    "left (store afigs_model ! 0) = Some 1" "right (store afigs_model ! 0) = Some 2"
    "left_temp (store afigs_model ! 0) = Some 1" "right_temp (store afigs_model ! 0) = Some 2"
    "trees afigs_model = Some [Some 0]"
    by (simp_all add: afigs_model_def)
  from t s(1,2,3) have
    "partitions (idxs (store afigs_model ! 0)) (idxs (store afigs_model ! 1))
       (idxs (store afigs_model ! 2))"
    by blast
  moreover from t s(6) have r: "is_root (store afigs_model ! 0)" by simp
  moreover from t s(1) r have
    "idxs (store afigs_model ! 0) = replicate (length [[0::real], [1]]) True"
    by blast
  ultimately show ?thesis using afigs_fit s by simp
qed




section \<open>anova-figs.py: inputs that \<open>fit\<close> rejects\<close>

lemma combinations_one: "xs \<noteq> [] \<Longrightarrow> combinations xs (Suc 0) \<noteq> []"
  by (cases xs) simp_all

lemma init_y_dict_nonempty:
  assumes "init_y s y = Inr (s', y_dict, y_onehot)" and "hd y \<noteq> []"
    and "case max_int s of None \<Rightarrow> True | Some mi \<Rightarrow> 1 \<le> mi"
  shows "y_dict \<noteq> []"
proof -
  let ?cols = "[0..<length (hd y)]"
  let ?mi = "case max_int s of None \<Rightarrow> int (length ?cols)
             | Some m \<Rightarrow> if m > int (length ?cols) then int (length ?cols) else m"
  from assms(2) have k: "?cols \<noteq> []" by simp
  from assms(2) have "Suc 0 \<le> length (hd y)" by (cases "hd y") simp_all
  with assms(3) have "1 \<le> ?mi" by (auto split: option.splits)
  then have "[1..<nat (?mi + 1)] = 1 # [2..<nat (?mi + 1)]"
    by (simp add: upt_conv_Cons numeral_2_eq_2)
  moreover from k have "combinations ?cols 1 \<noteq> []"
    using combinations_one[of ?cols] by simp
  ultimately have "concat (map (combinations ?cols) [1..<nat (?mi + 1)]) \<noteq> []"
    by simp
  moreover from assms(1) have
    "\<exists>f. y_dict = map f (concat (map (combinations ?cols) [1..<nat (?mi + 1)]))"
    by (auto simp: init_y_def ebind_eq_Inr Let_def)
  ultimately show ?thesis by auto
qed

lemma construct_node_with_stump_mismatch:
  assumes "length ix \<noteq> length X"
  shows "construct_node_with_stump K levels p S X y y_all ix tn w = Inl IndexError"
proof (cases w)
  case None
  with assms show ?thesis by (simp add: construct_node_with_stump_def np_mask_def)
next
  case (Some w')
  with assms show ?thesis
    by (cases "length ix = length w'") (simp_all add: construct_node_with_stump_def np_mask_def)
qed

lemma init_roots_mismatch:
  assumes "length ix \<noteq> length X" and "y_dict \<noteq> []"
  shows "init_roots K levels p X y ix w S tn y_dict pool = Inl IndexError"
proof -
  from assms(2) obtain tree_id y_resp rest where "y_dict = (tree_id, y_resp) # rest"
    by (cases y_dict) auto
  with construct_node_with_stump_mismatch[OF assms(1)] show ?thesis by simp
qed

lemma py_index_lower: "py_index k i = Inr q \<Longrightarrow> - int k \<le> i"
  by (auto simp: py_index_def split: if_splits)

lemma ravel_indices:
  "ravel ls is = Inr k \<Longrightarrow> j < length is \<Longrightarrow> j < length ls \<Longrightarrow> - (ls ! j) \<le> is ! j"
proof (induction ls "is" arbitrary: k j rule: ravel.induct)
  case (2 l ls i "is")
  from "2.prems"(1) obtain q r where q: "py_index (nat l) i = Inr q" and r: "ravel ls is = Inr r"
    by (auto simp: ebind_eq_Inr)
  show ?case
  proof (cases j)
    case 0
    from py_index_lower[OF q] have "- int (nat l) \<le> i" .
    moreover from q have "0 < nat l" by (auto dest: py_index_less)
    ultimately show ?thesis using 0 by simp
  next
    case (Suc j')
    with "2.prems" "2.IH"[OF r, of j'] show ?thesis by simp
  qed
qed simp_all

lemma onehot_rows_row:
  "onehot_rows levels y = Inr t \<Longrightarrow> r \<in> set y \<Longrightarrow> \<exists>k. ravel levels (map np_trunc r) = Inr k"
  by (induction y arbitrary: t) (auto simp: ebind_eq_Inr)

lemma init_y_bad_code:
  assumes "y_levels_of y = Inr levels" and "r \<in> set y" and "j < length r" and "j < length levels"
    and "np_trunc (r ! j) < - (levels ! j)"
  shows "\<exists>e. init_y s y = Inl e"
proof (cases "init_y s y")
  case (Inl e)
  then show ?thesis by blast
next
  case (Inr res)
  with assms(1) obtain t where "onehot_rows levels y = Inr t"
    by (auto simp: init_y_def ebind_eq_Inr Let_def)
  from onehot_rows_row[OF this assms(2)] obtain k where
    "ravel levels (map np_trunc r) = Inr k" by blast
  from ravel_indices[OF this, of j] assms(3,4) have "- (levels ! j) \<le> np_trunc (r ! j)"
    by simp
  with assms(5) show ?thesis by simp
qed

text \<open>The estimator that a raise of \<open>_init_y\<close> leaves, and the one that \<open>_init_y\<close> returns.\<close>

lemma init_y_raises:
  assumes "init_y s y = Inl (e, s')"
  shows "\<exists>yl nr. s' = s\<lparr>y_levels := yl, n_rows := nr\<rparr>"
proof (cases "y_levels_of y")
  case (Inl e')
  with assms have "s' = s\<lparr>y_levels := y_levels s, n_rows := n_rows s\<rparr>"
    by (simp add: init_y_def)
  then show ?thesis by blast
next
  case (Inr levels)
  with assms have "s' = s\<lparr>y_levels := Some levels, n_rows := Some (length y)\<rparr>"
    by (cases "np_zeros (length y) levels"; cases "onehot_rows levels y")
       (simp_all add: init_y_def Let_def)
  then show ?thesis by blast
qed

lemma init_y_returns:
  assumes "init_y s y = Inr (s', y_dict, y_onehot)"
  shows "\<exists>yl nr mi. s' = s\<lparr>y_levels := yl, n_rows := nr, max_int := mi\<rparr>"
  using assms by (auto simp: init_y_def ebind_eq_Inr Let_def)

lemma fit_init_raises:
  assumes "fit_init K slf p X y w = Inl (e, s)"
  shows "(\<exists>yl nr. s = slf\<lparr>complexity := 0, y_levels := yl, n_rows := nr\<rparr>) \<or>
         (\<exists>yl nr mi k. s = slf\<lparr>complexity := 0, y_levels := yl, n_rows := nr, max_int := mi,
                                trees := Some (replicate k None), store := []\<rparr>)"
proof (cases "init_y (slf\<lparr>complexity := 0\<rparr>) y")
  case (Inl es)
  with assms have "init_y (slf\<lparr>complexity := 0\<rparr>) y = Inl (e, s)"
    by (simp add: fit_init_def)
  from init_y_raises[OF this] show ?thesis by auto
next
  case (Inr res)
  obtain self1 y_dict y_onehot where res: "res = (self1, y_dict, y_onehot)" by (cases res)
  from init_y_returns[OF Inr[unfolded res]] obtain yl nr mi where
    s1: "self1 = slf\<lparr>complexity := 0, y_levels := yl, n_rows := nr, max_int := mi\<rparr>"
    by auto
  from assms Inr res have
    "s = self1\<lparr>trees := Some (replicate (length y_dict) None), store := []\<rparr>"
    by (auto simp: fit_init_def Let_def ebind_def raising_def
        split: option.splits sum.splits prod.splits)
  with s1 have
    "s = slf\<lparr>complexity := 0, y_levels := yl, n_rows := nr, max_int := mi,
              trees := Some (replicate (length y_dict) None), store := []\<rparr>"
    by simp
  then show ?thesis by blast
qed

text \<open>
  C7. \<open>fit\<close> raises, before its loop is entered, when \<open>X\<close> and \<open>y\<close> differ in their number of
  rows and at least one tree is asked for (\<open>y\<close> has a column and \<open>max_int\<close> is unset or at
  least one), or when an entry of \<open>y\<close>, cast to an integer, lies below minus the number of
  levels of its column. The estimator this raise leaves has \<open>complexity_ = 0\<close> and the
  hyper-parameters it had, but it is not the estimator of before: \<open>y_levels\<close> and \<open>n\<close> may
  have been assigned, and when the raise comes after \<open>_init_y\<close> also \<open>max_int\<close>, and
  \<open>trees_\<close> is a list of \<open>None\<close>.
\<close>

theorem fit_raises_on_mismatch_or_code_below_range:
  assumes "(length X \<noteq> length y \<and> hd y \<noteq> [] \<and>
            (case max_int slf of None \<Rightarrow> True | Some mi \<Rightarrow> 1 \<le> mi)) \<or>
           (\<exists>levels. y_levels_of y = Inr levels \<and>
              (\<exists>r \<in> set y. \<exists>j < length r. j < length levels \<and>
                 np_trunc (r ! j) < - (levels ! j)))"
  shows "\<exists>e s. fit_init K slf p X y w = Inl (e, s) \<and> fit K slf p X y w = Some (Inl (e, s)) \<and>
           ((\<exists>yl nr. s = slf\<lparr>complexity := 0, y_levels := yl, n_rows := nr\<rparr>) \<or>
            (\<exists>yl nr mi k. s = slf\<lparr>complexity := 0, y_levels := yl, n_rows := nr,
                                   max_int := mi, trees := Some (replicate k None),
                                   store := []\<rparr>))"
proof -
  have "\<exists>es. fit_init K slf p X y w = Inl es"
  proof (cases "init_y (slf\<lparr>complexity := 0\<rparr>) y")
    case (Inl es)
    then show ?thesis by (simp add: fit_init_def)
  next
    case (Inr res)
    obtain self1 y_dict y_onehot where res: "res = (self1, y_dict, y_onehot)" by (cases res)
    from assms Inr init_y_bad_code[of y _ _ _ "slf\<lparr>complexity := 0\<rparr>"] have
      h: "length X \<noteq> length y" "hd y \<noteq> []"
         "case max_int slf of None \<Rightarrow> True | Some mi \<Rightarrow> 1 \<le> mi"
      by fastforce+
    from init_y_fields[OF Inr[unfolded res]] obtain levels where
      n: "n_rows self1 = Some (length y)" and lv: "y_levels self1 = Some levels"
      by auto
    from init_y_dict_nonempty[OF Inr[unfolded res] h(2)] h(3) have ne: "y_dict \<noteq> []" by simp
    from h(1) have "length (replicate (length y) True) \<noteq> length X" by simp
    from init_roots_mismatch[OF this ne] Inr res n lv show ?thesis
      by (simp add: fit_init_def)
  qed
  then obtain e s where i: "fit_init K slf p X y w = Inl (e, s)" by (cases "fit_init K slf p X y w") auto
  then have "fit K slf p X y w = Some (Inl (e, s))" by (simp add: fit_def)
  with i fit_init_raises[OF i] show ?thesis by blast
qed

text \<open>The codes \<open>3/2\<close> and \<open>-1\<close> are taken for the code \<open>1\<close> of a column of two levels and a
  model is returned; a mismatch of the row counts goes unnoticed when no tree is asked
  for; and the estimator that a failing \<open>fit\<close> leaves has \<open>y_levels\<close>, \<open>n\<close> and \<open>trees_\<close> set.\<close>

theorem fit_accepts_incompatible_inputs:
  "(\<exists>mdl. fit demo_sk (afigs_init None (Some 12) 0) 1 [[0], [1], [2]] [[0], [3 / 2], [- 1]] None =
            Some (Inr mdl) \<and>
          y_levels mdl = Some [2] \<and> complexity mdl = 1 \<and> trees mdl = Some [Some 0]) \<and>
   length [[0::real]] < length [[0::real], [1]] \<and>
   (\<exists>mdl. fit demo_sk (afigs_init (Some 0) (Some 12) 0) 1 [[0]] [[0], [1]] None =
            Some (Inr mdl) \<and> n_rows mdl = Some 2) \<and>
   (\<exists>s. fit demo_sk (afigs_init None (Some 12) 0) 1 [[0]] [[0], [1]] None =
            Some (Inl (IndexError, s)) \<and>
        y_levels (afigs_init None (Some 12) 0) = None \<and> y_levels s = Some [2] \<and>
        n_rows s = Some 2 \<and> trees s = Some [None])"
proof -
  have "fit demo_sk (afigs_init None (Some 12) 0) 1 [[0]] [[0], [1]] None =
          Some (Inl (IndexError,
            \<lparr>max_int = Some 1, max_rules = Some 12, min_impurity_decrease = 0,
               prediction_task = ''classification'', y_levels = Some [2],
               n_rows = Some 2, complexity = 0, trees = Some [None], store = []\<rparr>))"
    by (simp add: fit_def afigs_fit_init_mismatch del: One_nat_def)
  moreover have "y_levels (afigs_init None (Some 12) 0) = None" by (simp add: afigs_init_def)
  ultimately show ?thesis
    using afigs_fit_codes afigs_fit_no_trees
    by (auto split: option.splits sum.splits)
qed

theorem fit_raises_on_mismatch_or_code_below_range_witness:
  "length [[0::real]] \<noteq> length [[0::real], [1]] \<and>
   fit demo_sk (afigs_init None (Some 12) 0) 1 [[0]] [[0], [1]] None =
     Some (Inl (IndexError,
       \<lparr>max_int = Some 1, max_rules = Some 12, min_impurity_decrease = 0,
          prediction_task = ''classification'', y_levels = Some [2],
          n_rows = Some 2, complexity = 0, trees = Some [None], store = []\<rparr>)) \<and>
   y_levels_of [[0], [- 3]] = Inr [1] \<and> np_trunc (- 3) < - 1 \<and>
   fit demo_sk (afigs_init None (Some 12) 0) 1 [[0], [1]] [[0], [- 3]] None =
     Some (Inl (IndexError,
       \<lparr>max_int = None, max_rules = Some 12, min_impurity_decrease = 0,
          prediction_task = ''classification'', y_levels = Some [1],
          n_rows = Some 2, complexity = 0, trees = None, store = []\<rparr>))"
proof -
  have "\<exists>e s. fit_init demo_sk (afigs_init None (Some 12) 0) 1 [[0]] [[0], [1]] None = Inl (e, s) \<and>
            fit demo_sk (afigs_init None (Some 12) 0) 1 [[0]] [[0], [1]] None = Some (Inl (e, s))"
    using fit_raises_on_mismatch_or_code_below_range[of "[[0]]" "[[0], [1]]"
        "afigs_init None (Some 12) 0" demo_sk 1 None]
    by (simp add: afigs_init_def) blast
  then have
    a: "fit demo_sk (afigs_init None (Some 12) 0) 1 [[0]] [[0], [1]] None =
          Some (Inl (IndexError,
            \<lparr>max_int = Some 1, max_rules = Some 12, min_impurity_decrease = 0,
               prediction_task = ''classification'', y_levels = Some [2],
               n_rows = Some 2, complexity = 0, trees = Some [None], store = []\<rparr>))"
    unfolding afigs_fit_init_mismatch by auto
  have t: "np_trunc (- 3) < - 1" by (simp add: np_trunc_def Let_def)
  have "\<exists>e s. fit_init demo_sk (afigs_init None (Some 12) 0) 1 [[0], [1]] [[0], [- 3]] None =
              Inl (e, s) \<and>
            fit demo_sk (afigs_init None (Some 12) 0) 1 [[0], [1]] [[0], [- 3]] None =
              Some (Inl (e, s))"
    using fit_raises_on_mismatch_or_code_below_range[of "[[0], [1]]" "[[0], [- 3]]"
        "afigs_init None (Some 12) 0" demo_sk 1 None] t
    by (simp add: afigs_levels_below) blast
  then have
    b: "fit demo_sk (afigs_init None (Some 12) 0) 1 [[0], [1]] [[0], [- 3]] None =
          Some (Inl (IndexError,
            \<lparr>max_int = None, max_rules = Some 12, min_impurity_decrease = 0,
               prediction_task = ''classification'', y_levels = Some [1],
               n_rows = Some 2, complexity = 0, trees = None, store = []\<rparr>))"
    unfolding afigs_fit_init_below by auto
  from a b t afigs_levels_below show ?thesis by simp
qed

section \<open>anova-figs.py: a root candidate without a split\<close>

text \<open>
  C8. A root candidate for which the stump finds no split has no impurity reduction, and
  \<open>fit\<close> raises TypeError when it compares that absent value with
  \<open>min_impurity_decrease\<close>: for two rows with equal features the only candidate is such a
  root, and no model is returned; nothing has been committed.
\<close>

theorem root_candidate_without_split_raises:
  "(\<exists>st d h.
      fit_init demo_sk (afigs_init None (Some 12) 0) 1 [[0], [0]] [[0], [1]] None =
        Inr (st, d, h) \<and>
      potential_splits st = [0] \<and> length (store (estimator st)) = 1 \<and>
      impurity_reduction (store (estimator st) ! 0) = None \<and>
      left_temp (store (estimator st) ! 0) = None) \<and>
   (\<exists>s. fit demo_sk (afigs_init None (Some 12) 0) 1 [[0], [0]] [[0], [1]] None =
          Some (Inl (TypeError, s)) \<and>
        complexity s = 0 \<and> trees s = Some [None])"
proof -
  let ?r = "fit demo_sk (afigs_init None (Some 12) 0) 1 [[0], [0]] [[0], [1]] None"
  from afigs_fit_no_split obtain x where x: "?r = Some x" by (cases ?r) auto
  from afigs_fit_no_split obtain es where es: "x = Inl es" unfolding x by (cases x) auto
  obtain e s where p: "es = (e, s)" by (cases es)
  from afigs_fit_no_split have "e = TypeError \<and> complexity s = 0 \<and> trees s = Some [None]"
    unfolding x es p by simp
  with x es p have "\<exists>s. ?r = Some (Inl (TypeError, s)) \<and> complexity s = 0 \<and> trees s = Some [None]"
    by blast
  with afigs_fit_init_no_split show ?thesis
    by (auto split: sum.splits prod.splits)
qed

end
